theory Spec2Isabelle
  imports Complex_Main "HOL-Library.Word" "HOL-Library.AList"
begin

section \<open>Values\<close>

text \<open>
  A \<open>uuid.UUID\<close> is sixteen bytes, read here as one 128-bit word (first byte most
  significant). Unsigned 32-bit counters and scores are \<open>32 word\<close>, so \<open>+\<close> wraps as Go's
  does. Row ids and Unix timestamps (\<open>int64\<close>) are integers; no arithmetic that could
  overflow is done on them. A \<open>float32\<close> or \<open>float64\<close> field is represented by the real
  number it denotes: the server only stores, copies and compares these values, and
  non-finite values are outside the model. An instant (\<open>time.Time\<close>) is a number of
  nanoseconds; every clock read of one handler invocation returns the same instant, which
  the handler takes as its first argument \<open>now\<close>.
\<close>

type_synonym uuid = "128 word"
type_synonym uint32 = "32 word"
type_synonym int64 = int
type_synonym float32 = real
type_synonym float64 = real
type_synonym time = int

definition Second :: int where
  "Second = 1000000000"

definition Millisecond :: int where
  "Millisecond = 1000000"

definition Unix :: "time \<Rightarrow> int64" where
  "Unix t = t div Second"

definition UnixMilli :: "time \<Rightarrow> int64" where
  "UnixMilli t = t div Millisecond"

definition Since :: "time \<Rightarrow> time \<Rightarrow> int" where
  "Since now t = now - t"

text \<open>The error values the model distinguishes.\<close>

datatype error = IOError | ErrCloseSent | UnmarshalTypeError

subsection \<open>Rendering of an id\<close>

text \<open>
  \<open>UUID.String()\<close> prints the sixteen bytes as 32 lower-case hexadecimal digits in the
  groups 8-4-4-4-12, separated by dashes.
\<close>

definition hexdigit :: "nat \<Rightarrow> char" where
  "hexdigit n = ''0123456789abcdef'' ! (n mod 16)"

definition nibble :: "uuid \<Rightarrow> nat \<Rightarrow> nat" where
  "nibble u i = unat (take_bit 4 (drop_bit (4 * (31 - i)) u))"

definition uuid_hex :: "uuid \<Rightarrow> string" where
  "uuid_hex u = map (\<lambda>i. hexdigit (nibble u i)) [0..<32]"

definition uuid_String :: "uuid \<Rightarrow> string" where
  "uuid_String u =
     (let h = uuid_hex u
      in take 8 h @ ''-'' @ take 4 (drop 8 h) @ ''-'' @ take 4 (drop 12 h) @ ''-''
           @ take 4 (drop 16 h) @ ''-'' @ drop 20 h)"

section \<open>Message model (message.go)\<close>

record Player =
  ID :: uuid
  Name :: string
  X :: float32
  Y :: float32
  Health :: float32
  Score :: uint32

definition NewPlayer :: "uuid \<Rightarrow> string \<Rightarrow> Player" where
  "NewPlayer pid name =
     \<lparr>Player.ID = pid, Player.Name = name, Player.X = 0, Player.Y = 0,
      Player.Health = 100, Player.Score = 0\<rparr>"

text \<open>
  The \<open>Data\<close> field of a message is an \<open>interface{}\<close>. A message built by the server holds
  one of the payload structs; a message decoded from JSON holds the generic value
  \<open>json.Unmarshal\<close> produces (\<open>map[string]interface{}\<close> for an object, \<open>float64\<close> for a
  number, and so on), here \<open>Decoded\<close>. An object is the association list of its members,
  looked up with \<open>map_of\<close>.
\<close>

datatype jvalue =
    JNull
  | JBool bool
  | JNumber float64
  | JString string
  | JArray "jvalue list"
  | JObject "(string \<times> jvalue) list"

datatype payload =
    PlayerJoinData uuid string
  | PlayerLeaveData uuid
  | PlayerMoveData uuid float32 float32
  | PlayerActionData uuid string jvalue
  | GameStateData "Player list" int64
  | ChatData uuid string
  | ErrorData string
  | HeartbeatData uuid uint32
  | AckData uint32
  | Decoded jvalue

record GameMessage =
  Type :: string
  Data :: payload

record UDPPacket =
  Sequence :: uint32
  Timestamp :: int64
  Message :: GameMessage
  Reliable :: bool

definition NewUDPPacket :: "time \<Rightarrow> uint32 \<Rightarrow> GameMessage \<Rightarrow> bool \<Rightarrow> UDPPacket" where
  "NewUDPPacket now sequence message reliable =
     \<lparr>UDPPacket.Sequence = sequence, UDPPacket.Timestamp = UnixMilli now,
      UDPPacket.Message = message, UDPPacket.Reliable = reliable\<rparr>"

definition NewPlayerJoinMessage :: "uuid \<Rightarrow> string \<Rightarrow> GameMessage" where
  "NewPlayerJoinMessage playerID name =
     \<lparr>Type = ''PlayerJoin'', Data = PlayerJoinData playerID name\<rparr>"


definition NewPlayerMoveMessage :: "uuid \<Rightarrow> float32 \<Rightarrow> float32 \<Rightarrow> GameMessage" where
  "NewPlayerMoveMessage playerID x y =
     \<lparr>Type = ''PlayerMove'', Data = PlayerMoveData playerID x y\<rparr>"

definition NewGameStateMessage :: "time \<Rightarrow> Player list \<Rightarrow> GameMessage" where
  "NewGameStateMessage now players =
     \<lparr>Type = ''GameState'', Data = GameStateData players (Unix now)\<rparr>"

definition NewChatMessage :: "uuid \<Rightarrow> string \<Rightarrow> GameMessage" where
  "NewChatMessage playerID message =
     \<lparr>Type = ''Chat'', Data = ChatData playerID message\<rparr>"

definition NewHeartbeatMessage :: "uuid \<Rightarrow> uint32 \<Rightarrow> GameMessage" where
  "NewHeartbeatMessage playerID sequence =
     \<lparr>Type = ''Heartbeat'', Data = HeartbeatData playerID sequence\<rparr>"

definition NewAckMessage :: "uint32 \<Rightarrow> GameMessage" where
  "NewAckMessage sequence =
     \<lparr>Type = ''Ack'', Data = AckData sequence\<rparr>"

subsection \<open>The datagram codec\<close>












section \<open>Control: returning, waiting on a mutex, panicking\<close>

text \<open>
  The handlers are run one at a time. A handler invocation either returns, or stops at a
  mutex acquisition that cannot proceed, or panics; each outcome carries the state at that
  point. The server mutexes are \<open>sync.RWMutex\<close> values: \<open>Lock\<close> proceeds when there is
  neither a writer nor a reader, \<open>RLock\<close> when there is no writer, and they are not
  reentrant. With one handler running at a time no other goroutine will release a mutex,
  so an acquisition that cannot proceed (\<open>None\<close>) waits forever. The per-client mutex is
  acquired and released around single field accesses and never nested, so it is left out.
\<close>

datatype 's outcome = Returned 's | Blocked 's | Panicked 's

fun state_of :: "'s outcome \<Rightarrow> 's" where
  "state_of (Returned s) = s"
| "state_of (Blocked s) = s"
| "state_of (Panicked s) = s"

definition and_then :: "'s outcome \<Rightarrow> ('s \<Rightarrow> 's outcome) \<Rightarrow> 's outcome" where
  "and_then r f = (case r of Returned s \<Rightarrow> f s | Blocked s \<Rightarrow> Blocked s | Panicked s \<Rightarrow> Panicked s)"

record RWMutex =
  writer :: bool
  readers :: nat

definition NewRWMutex :: RWMutex where
  "NewRWMutex = \<lparr>writer = False, readers = 0\<rparr>"

definition Lock :: "RWMutex \<Rightarrow> RWMutex option" where
  "Lock m = (if \<not> writer m \<and> readers m = 0 then Some (m\<lparr>writer := True\<rparr>) else None)"

definition Unlock :: "RWMutex \<Rightarrow> RWMutex" where
  "Unlock m = m\<lparr>writer := False\<rparr>"

definition RLock :: "RWMutex \<Rightarrow> RWMutex option" where
  "RLock m = (if \<not> writer m then Some (m\<lparr>readers := readers m + 1\<rparr>) else None)"

definition RUnlock :: "RWMutex \<Rightarrow> RWMutex" where
  "RUnlock m = m\<lparr>readers := readers m - 1\<rparr>"

section \<open>Persistence gateway (database.go)\<close>

text \<open>
  The store holds the tables of the migration as lists of rows, in insertion order.
  \<open>datetime('now')\<close> and \<open>CURRENT_TIMESTAMP\<close> have a resolution of one second and are
  the Unix seconds of the instant. The column \<open>event_data\<close> holds the JSON text of a
  message; the row keeps the message itself. Whether the store accepts a statement is
  decided outside the program: \<open>faults\<close> lists, for the coming statements, whether each one
  fails (an empty list: all succeed). A failing statement changes no table.
\<close>

record DBPlayer =
  ID :: string
  Name :: string
  X :: float64
  Y :: float64
  Health :: float64
  Score :: int64
  CreatedAt :: int64
  UpdatedAt :: int64
  LastSeenAt :: int64

record GameSession =
  ID :: int64
  PlayerID :: string
  SessionStart :: int64
  SessionEnd :: "int64 option"
  Protocol :: string
  ClientIP :: "string option"

record PlayerEvent =
  ID :: int64
  PlayerID :: string
  SessionID :: "int64 option"
  EventType :: string
  EventData :: "GameMessage option"
  Timestamp :: int64

record ChatMessage =
  ID :: int64
  PlayerID :: string
  SessionID :: "int64 option"
  Message :: string
  Timestamp :: int64

record Database =
  players :: "DBPlayer list"
  game_sessions :: "GameSession list"
  player_events :: "PlayerEvent list"
  chat_messages :: "ChatMessage list"
  faults :: "bool list"

definition Exec :: "(Database \<Rightarrow> Database) \<Rightarrow> Database \<Rightarrow> error option \<times> Database" where
  "Exec stmt d =
     (case faults d of
        [] \<Rightarrow> (None, stmt d)
      | f # fs \<Rightarrow>
          if f then (Some IOError, d\<lparr>faults := fs\<rparr>)
          else (None, stmt (d\<lparr>faults := fs\<rparr>)))"

text \<open>An \<open>INTEGER PRIMARY KEY AUTOINCREMENT\<close> column gets one more than the largest id so far.\<close>

definition next_rowid :: "int64 list \<Rightarrow> int64" where
  "next_rowid ids = fold max ids 0 + 1"

definition upsert_player :: "time \<Rightarrow> Player \<Rightarrow> Database \<Rightarrow> Database" where
  "upsert_player now player d =
     (let key = uuid_String (Player.ID player) in
      if key \<in> set (map DBPlayer.ID (players d)) then
        d\<lparr>players :=
            map (\<lambda>r. if DBPlayer.ID r = key
                      then r\<lparr>DBPlayer.Name := Player.Name player, DBPlayer.X := Player.X player,
                             DBPlayer.Y := Player.Y player, DBPlayer.Health := Player.Health player,
                             DBPlayer.Score := uint (Player.Score player),
                             UpdatedAt := Unix now, LastSeenAt := Unix now\<rparr>
                      else r) (players d)\<rparr>
      else
        d\<lparr>players := players d @
            [\<lparr>DBPlayer.ID = key, DBPlayer.Name = Player.Name player, DBPlayer.X = Player.X player,
              DBPlayer.Y = Player.Y player, DBPlayer.Health = Player.Health player,
              DBPlayer.Score = uint (Player.Score player),
              CreatedAt = Unix now, UpdatedAt = Unix now, LastSeenAt = Unix now\<rparr>]\<rparr>)"

definition CreateOrUpdatePlayer :: "time \<Rightarrow> Player \<Rightarrow> Database \<Rightarrow> error option \<times> Database" where
  "CreateOrUpdatePlayer now player d = Exec (upsert_player now player) d"

definition update_position :: "time \<Rightarrow> uuid \<Rightarrow> float32 \<Rightarrow> float32 \<Rightarrow> Database \<Rightarrow> Database" where
  "update_position now playerID x y d =
     d\<lparr>players :=
         map (\<lambda>r. if DBPlayer.ID r = uuid_String playerID
                   then r\<lparr>DBPlayer.X := x, DBPlayer.Y := y, UpdatedAt := Unix now, LastSeenAt := Unix now\<rparr>
                   else r) (players d)\<rparr>"

definition UpdatePlayerPosition ::
  "time \<Rightarrow> uuid \<Rightarrow> float32 \<Rightarrow> float32 \<Rightarrow> Database \<Rightarrow> error option \<times> Database" where
  "UpdatePlayerPosition now playerID x y d = Exec (update_position now playerID x y) d"

definition update_score :: "time \<Rightarrow> uuid \<Rightarrow> uint32 \<Rightarrow> Database \<Rightarrow> Database" where
  "update_score now playerID score d =
     d\<lparr>players :=
         map (\<lambda>r. if DBPlayer.ID r = uuid_String playerID
                   then r\<lparr>DBPlayer.Score := uint score, UpdatedAt := Unix now, LastSeenAt := Unix now\<rparr>
                   else r) (players d)\<rparr>"

definition UpdatePlayerScore :: "time \<Rightarrow> uuid \<Rightarrow> uint32 \<Rightarrow> Database \<Rightarrow> error option \<times> Database" where
  "UpdatePlayerScore now playerID score d = Exec (update_score now playerID score) d"

definition update_health :: "time \<Rightarrow> uuid \<Rightarrow> float32 \<Rightarrow> Database \<Rightarrow> Database" where
  "update_health now playerID health d =
     d\<lparr>players :=
         map (\<lambda>r. if DBPlayer.ID r = uuid_String playerID
                   then r\<lparr>DBPlayer.Health := health, UpdatedAt := Unix now, LastSeenAt := Unix now\<rparr>
                   else r) (players d)\<rparr>"

definition UpdatePlayerHealth :: "time \<Rightarrow> uuid \<Rightarrow> float32 \<Rightarrow> Database \<Rightarrow> error option \<times> Database" where
  "UpdatePlayerHealth now playerID health d = Exec (update_health now playerID health) d"

definition insert_session :: "time \<Rightarrow> uuid \<Rightarrow> string \<Rightarrow> string option \<Rightarrow> Database \<Rightarrow> Database" where
  "insert_session now playerID protocol clientIP d =
     d\<lparr>game_sessions := game_sessions d @
         [\<lparr>GameSession.ID = next_rowid (map GameSession.ID (game_sessions d)),
           GameSession.PlayerID = uuid_String playerID, SessionStart = Unix now,
           SessionEnd = None, Protocol = protocol, ClientIP = clientIP\<rparr>]\<rparr>"

definition CreateSession ::
  "time \<Rightarrow> uuid \<Rightarrow> string \<Rightarrow> string option \<Rightarrow> Database \<Rightarrow> (error + int64) \<times> Database" where
  "CreateSession now playerID protocol clientIP d =
     (case Exec (insert_session now playerID protocol clientIP) d of
        (Some e, d') \<Rightarrow> (Inl e, d')
      | (None, d') \<Rightarrow> (Inr (GameSession.ID (last (game_sessions d'))), d'))"

definition end_session :: "time \<Rightarrow> int64 \<Rightarrow> Database \<Rightarrow> Database" where
  "end_session now sessionID d =
     d\<lparr>game_sessions :=
         map (\<lambda>r. if GameSession.ID r = sessionID \<and> SessionEnd r = None
                   then r\<lparr>SessionEnd := Some (Unix now)\<rparr>
                   else r) (game_sessions d)\<rparr>"

definition EndSession :: "time \<Rightarrow> int64 \<Rightarrow> Database \<Rightarrow> error option \<times> Database" where
  "EndSession now sessionID d = Exec (end_session now sessionID) d"

definition insert_event ::
  "time \<Rightarrow> uuid \<Rightarrow> int64 option \<Rightarrow> string \<Rightarrow> GameMessage option \<Rightarrow> Database \<Rightarrow> Database" where
  "insert_event now playerID sessionID eventType eventData d =
     d\<lparr>player_events := player_events d @
         [\<lparr>PlayerEvent.ID = next_rowid (map PlayerEvent.ID (player_events d)),
           PlayerEvent.PlayerID = uuid_String playerID, PlayerEvent.SessionID = sessionID,
           EventType = eventType, EventData = eventData, PlayerEvent.Timestamp = Unix now\<rparr>]\<rparr>"

definition LogEvent ::
  "time \<Rightarrow> uuid \<Rightarrow> int64 option \<Rightarrow> string \<Rightarrow> GameMessage option \<Rightarrow> Database
     \<Rightarrow> error option \<times> Database" where
  "LogEvent now playerID sessionID eventType eventData d =
     Exec (insert_event now playerID sessionID eventType eventData) d"

definition insert_chat :: "time \<Rightarrow> uuid \<Rightarrow> int64 option \<Rightarrow> string \<Rightarrow> Database \<Rightarrow> Database" where
  "insert_chat now playerID sessionID message d =
     d\<lparr>chat_messages := chat_messages d @
         [\<lparr>ChatMessage.ID = next_rowid (map ChatMessage.ID (chat_messages d)),
           ChatMessage.PlayerID = uuid_String playerID, ChatMessage.SessionID = sessionID,
           ChatMessage.Message = message, ChatMessage.Timestamp = Unix now\<rparr>]\<rparr>"

definition SaveChatMessage ::
  "time \<Rightarrow> uuid \<Rightarrow> int64 option \<Rightarrow> string \<Rightarrow> Database \<Rightarrow> error option \<times> Database" where
  "SaveChatMessage now playerID sessionID message d =
     Exec (insert_chat now playerID sessionID message) d"

section \<open>Stream clients (client.go)\<close>

text \<open>
  The outbound queue \<open>Send\<close> is a buffered channel of capacity 256. It holds the encoded
  messages; the model keeps the messages themselves. A send on a closed channel panics,
  also inside a \<open>select\<close> with a \<open>default\<close> branch; closing a closed channel panics.
\<close>

record chan =
  buf :: "GameMessage list"
  closed :: bool

definition make_chan :: chan where
  "make_chan = \<lparr>buf = [], closed = False\<rparr>"

record Client =
  ID :: uuid
  Addr :: string
  Player :: Player
  Send :: chan

definition NewClient :: "uuid \<Rightarrow> string \<Rightarrow> string \<Rightarrow> Client" where
  "NewClient pid addr name =
     \<lparr>Client.ID = pid, Client.Addr = addr, Client.Player = NewPlayer pid name,
      Client.Send = make_chan\<rparr>"

definition SendMessage :: "GameMessage \<Rightarrow> Client \<Rightarrow> (error option \<times> Client) outcome" where
  "SendMessage message c =
     (if closed (Send c) then Panicked (None, c)
      else if length (buf (Send c)) < 256
        then Returned (None, c\<lparr>Send := (Send c)\<lparr>buf := buf (Send c) @ [message]\<rparr>\<rparr>)
        else Returned (Some ErrCloseSent, c\<lparr>Send := (Send c)\<lparr>closed := True\<rparr>\<rparr>))"

definition UpdatePosition :: "float32 \<Rightarrow> float32 \<Rightarrow> Client \<Rightarrow> Client" where
  "UpdatePosition x y c = c\<lparr>Client.Player := (Client.Player c)\<lparr>Player.X := x, Player.Y := y\<rparr>\<rparr>"


definition AddScore :: "uint32 \<Rightarrow> Client \<Rightarrow> Client" where
  "AddScore points c =
     c\<lparr>Client.Player := (Client.Player c)\<lparr>Player.Score := Player.Score (Client.Player c) + points\<rparr>\<rparr>"

section \<open>Game state of the stream transport (game.go)\<close>

text \<open>
  A Go map is an association list with distinct keys: \<open>map_of\<close> reads it, \<open>AList.update\<close>
  writes an entry and \<open>AList.delete\<close> removes one. A \<open>range\<close> loop visits the entries in
  list order. Go leaves that order open; the statements below hold for every list, hence
  for every arrangement of the same entries. The field \<open>sent\<close> is the history of the
  successful channel sends, destination first, oldest first; the program keeps no such
  record, it is there to state the order of sends.
\<close>

record GameState =
  clients :: "(uuid \<times> Client) list"
  mu :: RWMutex
  database :: Database
  sent :: "(uuid \<times> GameMessage) list"

definition NewGameState :: "Database \<Rightarrow> GameState" where
  "NewGameState d = \<lparr>clients = [], mu = NewRWMutex, database = d, sent = []\<rparr>"

text \<open>One \<open>client.SendMessage(message)\<close> on the client stored under \<open>k\<close>.\<close>

definition send_to :: "uuid \<Rightarrow> GameMessage \<Rightarrow> GameState \<Rightarrow> GameState outcome" where
  "send_to k message gs =
     (case map_of (clients gs) k of
        None \<Rightarrow> Returned gs
      | Some c \<Rightarrow>
          (case SendMessage message c of
             Returned (err, c') \<Rightarrow>
               Returned (gs\<lparr>clients := AList.update k c' (clients gs),
                            sent := (if err = None then sent gs @ [(k, message)] else sent gs)\<rparr>)
           | Blocked (err, c') \<Rightarrow> Blocked gs
           | Panicked (err, c') \<Rightarrow> Panicked gs))"

fun send_each :: "GameMessage \<Rightarrow> uuid list \<Rightarrow> GameState \<Rightarrow> GameState outcome" where
  "send_each message [] gs = Returned gs"
| "send_each message (k # ks) gs = and_then (send_to k message gs) (send_each message ks)"

definition broadcastMessage :: "GameMessage \<Rightarrow> uuid option \<Rightarrow> GameState \<Rightarrow> GameState outcome" where
  "broadcastMessage message exclude gs =
     send_each message
       (filter (\<lambda>clientID. exclude = None \<or> exclude \<noteq> Some clientID) (map fst (clients gs))) gs"


definition broadcastGameState :: "time \<Rightarrow> GameState \<Rightarrow> GameState outcome" where
  "broadcastGameState now gs =
     (case RLock (mu gs) of
        None \<Rightarrow> Blocked gs
      | Some m \<Rightarrow>
          (let gs = gs\<lparr>mu := m\<rparr>;
               players = map (\<lambda>(k, client). Client.Player client) (clients gs)
           in and_then
                (if length players > 0
                 then broadcastMessage (NewGameStateMessage now players) None gs
                 else Returned gs)
                (\<lambda>gs. Returned (gs\<lparr>mu := RUnlock (mu gs)\<rparr>))))"




text \<open>
  The type assertions of \<open>HandleMessage\<close>: \<open>message.Data.(map[string]interface{})\<close>,
  \<open>data[k].(string)\<close> and \<open>data[k].(float64)\<close>. A missing key reads as nil, on which every
  assertion fails.
\<close>

fun as_object :: "payload \<Rightarrow> (string \<times> jvalue) list option" where
  "as_object (Decoded (JObject members)) = Some members"
| "as_object _ = None"

fun as_string :: "jvalue option \<Rightarrow> string option" where
  "as_string (Some (JString s)) = Some s"
| "as_string _ = None"

fun as_float64 :: "jvalue option \<Rightarrow> float64 option" where
  "as_float64 (Some (JNumber r)) = Some r"
| "as_float64 _ = None"

definition handlePlayerAction ::
  "time \<Rightarrow> uuid \<Rightarrow> string \<Rightarrow> jvalue \<Rightarrow> int64 option \<Rightarrow> GameState \<Rightarrow> GameState" where
  "handlePlayerAction now clientID action data sessionID gs =
     (case map_of (clients gs) clientID of
        None \<Rightarrow> gs
      | Some client \<Rightarrow>
          if action = ''attack'' then
            (let (err, d) = LogEvent now clientID sessionID ''attack'' None (database gs)
             in gs\<lparr>database := d\<rparr>)
          else if action = ''pickup'' then
            (let client = AddScore 10 client;
                 newScore = Player.Score (Client.Player client);
                 (err, d) = UpdatePlayerScore now clientID newScore (database gs);
                 (err, d) = LogEvent now clientID sessionID ''pickup'' None d
             in gs\<lparr>clients := AList.update clientID client (clients gs), database := d\<rparr>)
          else gs)"

text \<open>
  \<open>uuid.Parse\<close> and the conversion \<open>float32(x)\<close> of a \<open>float64\<close> are not part of the
  repository; \<open>HandleMessage\<close> takes them as its first two arguments.
\<close>

definition HandleMessage_PlayerMove ::
  "(string \<Rightarrow> uuid option) \<Rightarrow> (float64 \<Rightarrow> float32) \<Rightarrow> time \<Rightarrow> uuid \<Rightarrow> Client \<Rightarrow> GameMessage
     \<Rightarrow> int64 option \<Rightarrow> GameState \<Rightarrow> GameState outcome" where
  "HandleMessage_PlayerMove Parse float32 now clientID client message sessionID gs =
     (case as_object (Data message) of
        None \<Rightarrow> Returned gs
      | Some data \<Rightarrow>
     (case as_string (map_of data ''player_id'') of
        None \<Rightarrow> Returned gs
      | Some playerIDStr \<Rightarrow>
          if Parse playerIDStr = Some clientID then
            (case as_float64 (map_of data ''x'') of
               None \<Rightarrow> Returned gs
             | Some x \<Rightarrow>
            (case as_float64 (map_of data ''y'') of
               None \<Rightarrow> Returned gs
             | Some y \<Rightarrow>
                 (let client = UpdatePosition (float32 x) (float32 y) client;
                      gs = gs\<lparr>clients := AList.update clientID client (clients gs)\<rparr>;
                      (err, d) = UpdatePlayerPosition now clientID (float32 x) (float32 y) (database gs);
                      moveMsg = NewPlayerMoveMessage clientID (float32 x) (float32 y);
                      (err, d) = LogEvent now clientID sessionID ''move'' (Some moveMsg) d;
                      gs = gs\<lparr>database := d\<rparr>
                  in and_then (broadcastMessage moveMsg (Some clientID) gs) (broadcastGameState now))))
          else Returned gs))"

definition HandleMessage_PlayerAction ::
  "(string \<Rightarrow> uuid option) \<Rightarrow> time \<Rightarrow> uuid \<Rightarrow> GameMessage \<Rightarrow> int64 option \<Rightarrow> GameState
     \<Rightarrow> GameState outcome" where
  "HandleMessage_PlayerAction Parse now clientID message sessionID gs =
     (case as_object (Data message) of
        None \<Rightarrow> Returned gs
      | Some data \<Rightarrow>
     (case as_string (map_of data ''player_id'') of
        None \<Rightarrow> Returned gs
      | Some playerIDStr \<Rightarrow>
          if Parse playerIDStr = Some clientID then
            (case as_string (map_of data ''action'') of
               None \<Rightarrow> Returned gs
             | Some action \<Rightarrow>
                 Returned (handlePlayerAction now clientID action
                   (case map_of data ''data'' of None \<Rightarrow> JNull | Some v \<Rightarrow> v) sessionID gs))
          else Returned gs))"

definition HandleMessage_Chat ::
  "(string \<Rightarrow> uuid option) \<Rightarrow> time \<Rightarrow> uuid \<Rightarrow> GameMessage \<Rightarrow> int64 option \<Rightarrow> GameState
     \<Rightarrow> GameState outcome" where
  "HandleMessage_Chat Parse now clientID message sessionID gs =
     (case as_object (Data message) of
        None \<Rightarrow> Returned gs
      | Some data \<Rightarrow>
     (case as_string (map_of data ''player_id'') of
        None \<Rightarrow> Returned gs
      | Some playerIDStr \<Rightarrow>
          if Parse playerIDStr = Some clientID then
            (case as_string (map_of data ''message'') of
               None \<Rightarrow> Returned gs
             | Some messageStr \<Rightarrow>
                 (let (err, d) = SaveChatMessage now clientID sessionID messageStr (database gs);
                      chatMsg = NewChatMessage clientID messageStr;
                      (err, d) = LogEvent now clientID sessionID ''chat'' (Some chatMsg) d;
                      gs = gs\<lparr>database := d\<rparr>
                  in broadcastMessage chatMsg None gs))
          else Returned gs))"

definition HandleMessage ::
  "(string \<Rightarrow> uuid option) \<Rightarrow> (float64 \<Rightarrow> float32) \<Rightarrow> time \<Rightarrow> uuid \<Rightarrow> GameMessage
     \<Rightarrow> int64 option \<Rightarrow> GameState \<Rightarrow> GameState outcome" where
  "HandleMessage Parse float32 now clientID message sessionID gs =
     (case Lock (mu gs) of
        None \<Rightarrow> Blocked gs
      | Some m \<Rightarrow>
          and_then
            (let gs = gs\<lparr>mu := m\<rparr> in
             case map_of (clients gs) clientID of
               None \<Rightarrow> Returned gs
             | Some client \<Rightarrow>
                 if Type message = ''PlayerMove''
                   then HandleMessage_PlayerMove Parse float32 now clientID client message sessionID gs
                 else if Type message = ''PlayerAction''
                   then HandleMessage_PlayerAction Parse now clientID message sessionID gs
                 else if Type message = ''Chat''
                   then HandleMessage_Chat Parse now clientID message sessionID gs
                 else Returned gs)
            (\<lambda>gs. Returned (gs\<lparr>mu := Unlock (mu gs)\<rparr>)))"

section \<open>Stream listener (server.go, client.go)\<close>



section \<open>Datagram clients (udp_server.go)\<close>

text \<open>
  A remote address is given by the two renderings the server uses: \<open>addr.String()\<close>, the
  key of the client table, and \<open>addr.IP.String()\<close>, the client IP of the session.
\<close>

record UDPAddr =
  addr_String :: string
  addr_IP :: string

record PendingPacket =
  Packet :: UDPPacket
  Timestamp :: time

record UDPClient =
  ID :: uuid
  Addr :: UDPAddr
  Player :: Player
  LastSeen :: time
  Sequence :: uint32
  AckSequence :: uint32
  PendingAcks :: "(uint32 \<times> PendingPacket) list"
  SessionID :: "int64 option"

definition NewUDPClient :: "time \<Rightarrow> uuid \<Rightarrow> UDPAddr \<Rightarrow> string \<Rightarrow> int64 option \<Rightarrow> UDPClient" where
  "NewUDPClient now pid addr name sessionID =
     \<lparr>UDPClient.ID = pid, UDPClient.Addr = addr, UDPClient.Player = NewPlayer pid name,
      LastSeen = now, UDPClient.Sequence = 0, AckSequence = 0, PendingAcks = [],
      UDPClient.SessionID = sessionID\<rparr>"

definition UDPClient_UpdatePosition :: "time \<Rightarrow> float32 \<Rightarrow> float32 \<Rightarrow> UDPClient \<Rightarrow> UDPClient" where
  "UDPClient_UpdatePosition now x y uc =
     uc\<lparr>UDPClient.Player := (UDPClient.Player uc)\<lparr>Player.X := x, Player.Y := y\<rparr>, LastSeen := now\<rparr>"


definition UDPClient_AddScore :: "uint32 \<Rightarrow> UDPClient \<Rightarrow> UDPClient" where
  "UDPClient_AddScore points uc =
     uc\<lparr>UDPClient.Player :=
          (UDPClient.Player uc)\<lparr>Player.Score := Player.Score (UDPClient.Player uc) + points\<rparr>\<rparr>"

definition NextSequence :: "UDPClient \<Rightarrow> uint32 \<times> UDPClient" where
  "NextSequence uc =
     (UDPClient.Sequence uc + 1, uc\<lparr>UDPClient.Sequence := UDPClient.Sequence uc + 1\<rparr>)"

definition IsTimeout :: "time \<Rightarrow> UDPClient \<Rightarrow> bool" where
  "IsTimeout now uc \<longleftrightarrow> Since now (LastSeen uc) > 30 * Second"

definition AddPendingAck :: "time \<Rightarrow> UDPPacket \<Rightarrow> UDPClient \<Rightarrow> UDPClient" where
  "AddPendingAck now packet uc =
     uc\<lparr>PendingAcks :=
          AList.update (UDPPacket.Sequence packet)
            \<lparr>Packet = packet, PendingPacket.Timestamp = now\<rparr> (PendingAcks uc)\<rparr>"

definition RemovePendingAck :: "uint32 \<Rightarrow> UDPClient \<Rightarrow> bool \<times> UDPClient" where
  "RemovePendingAck sequence uc =
     (let exists = (map_of (PendingAcks uc) sequence \<noteq> None)
      in (exists, if exists then uc\<lparr>PendingAcks := AList.delete sequence (PendingAcks uc)\<rparr> else uc))"

definition GetTimeoutPackets :: "time \<Rightarrow> UDPClient \<Rightarrow> uint32 list" where
  "GetTimeoutPackets now uc =
     map fst (filter (\<lambda>(seq, pending). Since now (PendingPacket.Timestamp pending) > 100 * Millisecond)
                (PendingAcks uc))"

section \<open>Datagram server (udp_server.go)\<close>

text \<open>
  The socket records the datagrams it has written, destination first, oldest first; a
  datagram is kept as the packet it encodes. Whether a write succeeds is decided outside
  the program, as for the store: \<open>write_faults\<close> lists it for the coming writes.
  \<open>net.ResolveUDPAddr\<close> is applied to keys of the client table only, which are renderings
  of addresses, and succeeds there.
\<close>

record UDPConn =
  written :: "(string \<times> UDPPacket) list"
  write_faults :: "bool list"

definition WriteToUDP :: "UDPPacket \<Rightarrow> string \<Rightarrow> UDPConn \<Rightarrow> error option \<times> UDPConn" where
  "WriteToUDP packet addrStr c =
     (case write_faults c of
        [] \<Rightarrow> (None, c\<lparr>written := written c @ [(addrStr, packet)]\<rparr>)
      | f # fs \<Rightarrow>
          if f then (Some IOError, c\<lparr>write_faults := fs\<rparr>)
          else (None, c\<lparr>written := written c @ [(addrStr, packet)], write_faults := fs\<rparr>))"

record UDPGameServer =
  conn :: UDPConn
  clients :: "(string \<times> UDPClient) list"
  clientByID :: "(uuid \<times> string) list"
  database :: Database
  mu :: RWMutex

definition NewUDPGameServer :: "UDPConn \<Rightarrow> Database \<Rightarrow> UDPGameServer" where
  "NewUDPGameServer c d =
     \<lparr>conn = c, UDPGameServer.clients = [], clientByID = [], UDPGameServer.database = d,
      UDPGameServer.mu = NewRWMutex\<rparr>"

definition sendAck :: "time \<Rightarrow> UDPAddr \<Rightarrow> uint32 \<Rightarrow> UDPGameServer \<Rightarrow> UDPGameServer" where
  "sendAck now addr sequence ugs =
     (let ackMessage = NewAckMessage sequence;
          packet = NewUDPPacket now 0 ackMessage False;
          (err, c) = WriteToUDP packet (addr_String addr) (conn ugs)
      in ugs\<lparr>conn := c\<rparr>)"

fun broadcastReliable_loop ::
  "time \<Rightarrow> GameMessage \<Rightarrow> string option \<Rightarrow> (string \<times> UDPClient) list \<Rightarrow> UDPConn
     \<Rightarrow> (string \<times> UDPClient) list \<times> UDPConn" where
  "broadcastReliable_loop now message exclude [] c = ([], c)"
| "broadcastReliable_loop now message exclude ((addrStr, client) # rest) c =
     (if exclude = None \<or> exclude \<noteq> Some addrStr then
        (let (sequence, client) = NextSequence client;
             packet = NewUDPPacket now sequence message True;
             client = AddPendingAck now packet client;
             (err, c) = WriteToUDP packet addrStr c;
             (rest, c) = broadcastReliable_loop now message exclude rest c
         in ((addrStr, client) # rest, c))
      else
        (let (rest, c) = broadcastReliable_loop now message exclude rest c
         in ((addrStr, client) # rest, c)))"

definition broadcastReliable ::
  "time \<Rightarrow> GameMessage \<Rightarrow> string option \<Rightarrow> UDPGameServer \<Rightarrow> UDPGameServer outcome" where
  "broadcastReliable now message exclude ugs =
     (case RLock (UDPGameServer.mu ugs) of
        None \<Rightarrow> Blocked ugs
      | Some m \<Rightarrow>
          (let (cs, c) = broadcastReliable_loop now message exclude (UDPGameServer.clients ugs) (conn ugs)
           in Returned (ugs\<lparr>UDPGameServer.clients := cs, conn := c, UDPGameServer.mu := RUnlock m\<rparr>)))"

fun broadcastUnreliable_loop ::
  "time \<Rightarrow> GameMessage \<Rightarrow> string option \<Rightarrow> string list \<Rightarrow> UDPConn \<Rightarrow> UDPConn" where
  "broadcastUnreliable_loop now message exclude [] c = c"
| "broadcastUnreliable_loop now message exclude (addrStr # rest) c =
     (if exclude = None \<or> exclude \<noteq> Some addrStr then
        (let packet = NewUDPPacket now 0 message False;
             (err, c) = WriteToUDP packet addrStr c
         in broadcastUnreliable_loop now message exclude rest c)
      else broadcastUnreliable_loop now message exclude rest c)"

definition broadcastUnreliable ::
  "time \<Rightarrow> GameMessage \<Rightarrow> string option \<Rightarrow> UDPGameServer \<Rightarrow> UDPGameServer outcome" where
  "broadcastUnreliable now message exclude ugs =
     (case RLock (UDPGameServer.mu ugs) of
        None \<Rightarrow> Blocked ugs
      | Some m \<Rightarrow>
          Returned (ugs\<lparr>conn := broadcastUnreliable_loop now message exclude
                                   (map fst (UDPGameServer.clients ugs)) (conn ugs),
                        UDPGameServer.mu := RUnlock m\<rparr>))"

definition UDP_sendGameStateToClient :: "time \<Rightarrow> UDPAddr \<Rightarrow> UDPGameServer \<Rightarrow> UDPGameServer outcome" where
  "UDP_sendGameStateToClient now addr ugs =
     (case RLock (UDPGameServer.mu ugs) of
        None \<Rightarrow> Blocked ugs
      | Some m \<Rightarrow>
          (let players = map (\<lambda>(k, client). UDPClient.Player client) (UDPGameServer.clients ugs);
               gameStateMessage = NewGameStateMessage now players;
               addrStr = addr_String addr
           in case map_of (UDPGameServer.clients ugs) addrStr of
                None \<Rightarrow> Returned (ugs\<lparr>UDPGameServer.mu := RUnlock m\<rparr>)
              | Some client \<Rightarrow>
                  (let (sequence, client) = NextSequence client;
                       packet = NewUDPPacket now sequence gameStateMessage True;
                       client = AddPendingAck now packet client;
                       (err, c) = WriteToUDP packet addrStr (conn ugs)
                   in Returned (ugs\<lparr>UDPGameServer.clients :=
                                       AList.update addrStr client (UDPGameServer.clients ugs),
                                     conn := c, UDPGameServer.mu := RUnlock m\<rparr>))))"

text \<open>
  \<open>admit\<close> is the branch of \<open>handleHeartbeat\<close> for an unknown address, up to its two map
  writes; \<open>touch\<close> is the branch for a known address.
\<close>

definition admit :: "time \<Rightarrow> UDPAddr \<Rightarrow> uuid \<Rightarrow> UDPGameServer \<Rightarrow> UDPGameServer" where
  "admit now addr playerID ugs =
     (let addrStr = addr_String addr;
          clientName = ''Player_'' @ take 8 (uuid_String playerID);
          ipStr = addr_IP addr;
          (res, d) = CreateSession now playerID ''udp'' (Some ipStr) (UDPGameServer.database ugs);
          sessionID = (case res of Inl err \<Rightarrow> None | Inr i \<Rightarrow> Some i);
          client = NewUDPClient now playerID addr clientName sessionID;
          (err, d) = CreateOrUpdatePlayer now (UDPClient.Player client) d;
          joinMsg = NewPlayerJoinMessage playerID clientName;
          (err, d) = LogEvent now playerID sessionID ''join'' (Some joinMsg) d
      in ugs\<lparr>UDPGameServer.database := d,
              UDPGameServer.clients := AList.update addrStr client (UDPGameServer.clients ugs),
              clientByID := AList.update playerID addrStr (clientByID ugs)\<rparr>)"

definition touch :: "time \<Rightarrow> UDPAddr \<Rightarrow> uint32 \<Rightarrow> UDPGameServer \<Rightarrow> UDPGameServer" where
  "touch now addr sequence ugs =
     (case map_of (UDPGameServer.clients ugs) (addr_String addr) of
        None \<Rightarrow> ugs
      | Some client \<Rightarrow>
          ugs\<lparr>UDPGameServer.clients :=
                AList.update (addr_String addr) (client\<lparr>LastSeen := now, AckSequence := sequence\<rparr>)
                  (UDPGameServer.clients ugs)\<rparr>)"

definition handleHeartbeat ::
  "time \<Rightarrow> UDPAddr \<Rightarrow> uuid \<Rightarrow> uint32 \<Rightarrow> UDPGameServer \<Rightarrow> UDPGameServer outcome" where
  "handleHeartbeat now addr playerID sequence ugs =
     (case Lock (UDPGameServer.mu ugs) of
        None \<Rightarrow> Blocked ugs
      | Some m \<Rightarrow>
          and_then
            (if map_of (UDPGameServer.clients ugs) (addr_String addr) = None then
               and_then
                 (broadcastReliable now
                    (NewPlayerJoinMessage playerID (''Player_'' @ take 8 (uuid_String playerID)))
                    (Some (addr_String addr))
                    (admit now addr playerID (ugs\<lparr>UDPGameServer.mu := m\<rparr>)))
                 (UDP_sendGameStateToClient now addr)
             else Returned (touch now addr sequence (ugs\<lparr>UDPGameServer.mu := m\<rparr>)))
            (\<lambda>ugs. Returned ((sendAck now addr sequence ugs)
                                \<lparr>UDPGameServer.mu := Unlock (UDPGameServer.mu ugs)\<rparr>)))"

text \<open>
  The other packet handlers read the client table under the read lock, release it, and
  then work on the client they found.
\<close>

definition lookup_client :: "UDPAddr \<Rightarrow> UDPGameServer \<Rightarrow> (UDPClient option \<times> UDPGameServer) option" where
  "lookup_client addr ugs =
     (case RLock (UDPGameServer.mu ugs) of
        None \<Rightarrow> None
      | Some m \<Rightarrow>
          Some (map_of (UDPGameServer.clients ugs) (addr_String addr),
                ugs\<lparr>UDPGameServer.mu := RUnlock m\<rparr>))"

definition store_client :: "UDPAddr \<Rightarrow> UDPClient \<Rightarrow> UDPGameServer \<Rightarrow> UDPGameServer" where
  "store_client addr client ugs =
     ugs\<lparr>UDPGameServer.clients := AList.update (addr_String addr) client (UDPGameServer.clients ugs)\<rparr>"

definition handleAck :: "UDPAddr \<Rightarrow> uint32 \<Rightarrow> UDPGameServer \<Rightarrow> UDPGameServer outcome" where
  "handleAck addr sequence ugs =
     (case lookup_client addr ugs of
        None \<Rightarrow> Blocked ugs
      | Some (None, ugs) \<Rightarrow> Returned ugs
      | Some (Some client, ugs) \<Rightarrow>
          Returned (store_client addr (snd (RemovePendingAck sequence client)) ugs))"

definition handlePlayerMove ::
  "time \<Rightarrow> UDPAddr \<Rightarrow> uuid \<Rightarrow> float32 \<Rightarrow> float32 \<Rightarrow> uint32 \<Rightarrow> UDPGameServer
     \<Rightarrow> UDPGameServer outcome" where
  "handlePlayerMove now addr playerID x y sequence ugs =
     (case lookup_client addr ugs of
        None \<Rightarrow> Blocked ugs
      | Some (None, ugs) \<Rightarrow> Returned ugs
      | Some (Some client, ugs) \<Rightarrow>
          if UDPClient.ID client = playerID then
            (let client = UDPClient_UpdatePosition now x y client;
                 ugs = store_client addr client ugs;
                 (err, d) = UpdatePlayerPosition now playerID x y (UDPGameServer.database ugs);
                 d = (if sequence mod 10 = 0
                      then snd (LogEvent now playerID (UDPClient.SessionID client) ''move''
                                  (Some (NewPlayerMoveMessage playerID x y)) d)
                      else d);
                 ugs = sendAck now addr sequence (ugs\<lparr>UDPGameServer.database := d\<rparr>);
                 moveMessage = NewPlayerMoveMessage playerID x y;
                 addrStr = addr_String addr
             in broadcastUnreliable now moveMessage (Some addrStr) ugs)
          else Returned ugs)"

definition UDP_handlePlayerAction ::
  "time \<Rightarrow> UDPAddr \<Rightarrow> uuid \<Rightarrow> string \<Rightarrow> jvalue \<Rightarrow> uint32 \<Rightarrow> UDPGameServer
     \<Rightarrow> UDPGameServer outcome" where
  "UDP_handlePlayerAction now addr playerID action data sequence ugs =
     (case lookup_client addr ugs of
        None \<Rightarrow> Blocked ugs
      | Some (None, ugs) \<Rightarrow> Returned ugs
      | Some (Some client, ugs) \<Rightarrow>
          if UDPClient.ID client = playerID then
            (let ugs =
                   (if action = ''attack'' then
                      (let (err, d) = LogEvent now playerID (UDPClient.SessionID client) ''attack'' None
                                        (UDPGameServer.database ugs)
                       in ugs\<lparr>UDPGameServer.database := d\<rparr>)
                    else if action = ''pickup'' then
                      (let client = UDPClient_AddScore 10 client;
                           newScore = Player.Score (UDPClient.Player client);
                           (err, d) = UpdatePlayerScore now playerID newScore (UDPGameServer.database ugs);
                           (err, d) = LogEvent now playerID (UDPClient.SessionID client) ''pickup'' None d
                       in (store_client addr client ugs)\<lparr>UDPGameServer.database := d\<rparr>)
                    else ugs)
             in Returned (sendAck now addr sequence ugs))
          else Returned ugs)"

definition handleChat ::
  "time \<Rightarrow> UDPAddr \<Rightarrow> uuid \<Rightarrow> string \<Rightarrow> uint32 \<Rightarrow> UDPGameServer \<Rightarrow> UDPGameServer outcome" where
  "handleChat now addr playerID message sequence ugs =
     (case lookup_client addr ugs of
        None \<Rightarrow> Blocked ugs
      | Some (None, ugs) \<Rightarrow> Returned ugs
      | Some (Some client, ugs) \<Rightarrow>
          if UDPClient.ID client = playerID then
            (let (err, d) = SaveChatMessage now playerID (UDPClient.SessionID client) message
                              (UDPGameServer.database ugs);
                 chatMsg = NewChatMessage playerID message;
                 (err, d) = LogEvent now playerID (UDPClient.SessionID client) ''chat'' (Some chatMsg) d;
                 ugs = sendAck now addr sequence (ugs\<lparr>UDPGameServer.database := d\<rparr>);
                 addrStr = addr_String addr
             in broadcastReliable now chatMsg (Some addrStr) ugs)
          else Returned ugs)"

subsection \<open>Background tasks: one firing of each ticker\<close>

fun heartbeat_loop :: "time \<Rightarrow> (string \<times> UDPClient) list \<Rightarrow> UDPConn \<Rightarrow> UDPConn" where
  "heartbeat_loop now [] c = c"
| "heartbeat_loop now ((addrStr, client) # rest) c =
     (let heartbeat = NewHeartbeatMessage (UDPClient.ID client) 0;
          packet = NewUDPPacket now 0 heartbeat False;
          (err, c) = WriteToUDP packet addrStr c
      in heartbeat_loop now rest c)"

definition startHeartbeatTask_tick :: "time \<Rightarrow> UDPGameServer \<Rightarrow> UDPGameServer outcome" where
  "startHeartbeatTask_tick now ugs =
     (case RLock (UDPGameServer.mu ugs) of
        None \<Rightarrow> Blocked ugs
      | Some m \<Rightarrow>
          Returned (ugs\<lparr>conn := heartbeat_loop now (UDPGameServer.clients ugs) (conn ugs),
                        UDPGameServer.mu := RUnlock m\<rparr>))"

definition remove_client :: "string \<times> uuid \<Rightarrow> UDPGameServer \<Rightarrow> UDPGameServer" where
  "remove_client e ugs =
     ugs\<lparr>UDPGameServer.clients := AList.delete (fst e) (UDPGameServer.clients ugs),
          clientByID := AList.delete (snd e) (clientByID ugs)\<rparr>"

definition startCleanupTask_tick :: "time \<Rightarrow> UDPGameServer \<Rightarrow> UDPGameServer outcome" where
  "startCleanupTask_tick now ugs =
     (case Lock (UDPGameServer.mu ugs) of
        None \<Rightarrow> Blocked ugs
      | Some m \<Rightarrow>
          (let timedOut = filter (\<lambda>(addrStr, client). IsTimeout now client) (UDPGameServer.clients ugs);
               toRemove = map fst timedOut;
               clientIDs = map (\<lambda>(addrStr, client). UDPClient.ID client) timedOut;
               ugs = fold remove_client (zip toRemove clientIDs) ugs
           in Returned (ugs\<lparr>UDPGameServer.mu := Unlock m\<rparr>)))"

fun resend_loop :: "time \<Rightarrow> string \<Rightarrow> uint32 list \<Rightarrow> UDPClient \<Rightarrow> UDPConn \<Rightarrow> UDPClient \<times> UDPConn" where
  "resend_loop now addrStr [] client c = (client, c)"
| "resend_loop now addrStr (sequence # rest) client c =
     (case map_of (PendingAcks client) sequence of
        None \<Rightarrow> resend_loop now addrStr rest client c
      | Some pending \<Rightarrow>
          (let (err, c) = WriteToUDP (Packet pending) addrStr c;
               client =
                 (if err = None then
                    (case map_of (PendingAcks client) sequence of
                       None \<Rightarrow> client
                     | Some pending \<Rightarrow>
                         client\<lparr>PendingAcks :=
                           AList.update sequence (pending\<lparr>PendingPacket.Timestamp := now\<rparr>)
                             (PendingAcks client)\<rparr>)
                  else client)
           in resend_loop now addrStr rest client c))"

fun reliability_loop ::
  "time \<Rightarrow> (string \<times> UDPClient) list \<Rightarrow> UDPConn \<Rightarrow> (string \<times> UDPClient) list \<times> UDPConn" where
  "reliability_loop now [] c = ([], c)"
| "reliability_loop now ((addrStr, client) # rest) c =
     (let timeoutSeqs = GetTimeoutPackets now client;
          (client, c) = resend_loop now addrStr timeoutSeqs client c;
          (rest, c) = reliability_loop now rest c
      in ((addrStr, client) # rest, c))"

definition startReliabilityTask_tick :: "time \<Rightarrow> UDPGameServer \<Rightarrow> UDPGameServer outcome" where
  "startReliabilityTask_tick now ugs =
     (case RLock (UDPGameServer.mu ugs) of
        None \<Rightarrow> Blocked ugs
      | Some m \<Rightarrow>
          (let (cs, c) = reliability_loop now (UDPGameServer.clients ugs) (conn ugs)
           in Returned (ugs\<lparr>UDPGameServer.clients := cs, conn := c, UDPGameServer.mu := RUnlock m\<rparr>)))"

subsection \<open>Runs of the datagram server\<close>

text \<open>
  What the server does next is a packet handed to its handler by \<open>handlePacket\<close>, or the
  firing of one of the three tickers. A state is reachable when a run from a fresh server
  leads to it; the state a handler leaves behind when it stops at a mutex counts, since
  the other goroutines go on from that memory.
\<close>

datatype event =
    Heartbeat UDPAddr uuid uint32
  | Ack UDPAddr uint32
  | PlayerMove UDPAddr uuid float32 float32 uint32
  | PlayerAction UDPAddr uuid string jvalue uint32
  | Chat UDPAddr uuid string uint32
  | HeartbeatTick
  | CleanupTick
  | ReliabilityTick

fun step :: "time \<Rightarrow> event \<Rightarrow> UDPGameServer \<Rightarrow> UDPGameServer outcome" where
  "step now (Heartbeat addr playerID sequence) ugs = handleHeartbeat now addr playerID sequence ugs"
| "step now (Ack addr sequence) ugs = handleAck addr sequence ugs"
| "step now (PlayerMove addr playerID x y sequence) ugs = handlePlayerMove now addr playerID x y sequence ugs"
| "step now (PlayerAction addr playerID action data sequence) ugs =
     UDP_handlePlayerAction now addr playerID action data sequence ugs"
| "step now (Chat addr playerID message sequence) ugs = handleChat now addr playerID message sequence ugs"
| "step now HeartbeatTick ugs = startHeartbeatTask_tick now ugs"
| "step now CleanupTick ugs = startCleanupTask_tick now ugs"
| "step now ReliabilityTick ugs = startReliabilityTask_tick now ugs"

inductive reachable :: "UDPGameServer \<Rightarrow> bool" where
  fresh: "reachable (NewUDPGameServer c d)"
| after: "reachable ugs \<Longrightarrow> reachable (state_of (step now e ugs))"

section \<open>Stated properties and example states\<close>

definition health_in_range :: "float32 \<Rightarrow> bool" where
  "health_in_range h \<longleftrightarrow> 0 \<le> h \<and> h \<le> 100"

text \<open>The health of every player of the roster, or of the client table, lies in [0,100].\<close>

definition roster_healthy :: "GameState \<Rightarrow> bool" where
  "roster_healthy gs =
     list_all (\<lambda>(k, c). health_in_range (Player.Health (Client.Player c))) (GameState.clients gs)"

definition table_healthy :: "UDPGameServer \<Rightarrow> bool" where
  "table_healthy ugs =
     list_all (\<lambda>(a, c). health_in_range (Player.Health (UDPClient.Player c))) (UDPGameServer.clients ugs)"

text \<open>Every packet awaiting acknowledgement was sent with \<open>reliable=true\<close>.\<close>

definition packets_reliable :: "(uint32 \<times> PendingPacket) list \<Rightarrow> bool" where
  "packets_reliable ps = list_all (\<lambda>(q, pp). Reliable (Packet pp)) ps"

definition pending_reliable :: "UDPGameServer \<Rightarrow> bool" where
  "pending_reliable ugs =
     list_all (\<lambda>(a, uc). packets_reliable (PendingAcks uc)) (UDPGameServer.clients ugs)"

text \<open>
  The datagrams written between two states, and what it means for a datagram to be one of
  the pending packets of the client it is addressed to.
\<close>

definition newly_written :: "UDPGameServer \<Rightarrow> UDPGameServer \<Rightarrow> (string \<times> UDPPacket) list" where
  "newly_written ugs ugs' = drop (length (written (conn ugs))) (written (conn ugs'))"

definition is_pending :: "UDPClient \<Rightarrow> UDPPacket \<Rightarrow> bool" where
  "is_pending uc p = list_ex (\<lambda>(q, pp). Packet pp = p) (PendingAcks uc)"

definition pending_for :: "(string \<times> UDPClient) list \<Rightarrow> string \<times> UDPPacket \<Rightarrow> bool" where
  "pending_for cs = (\<lambda>(a, p). list_ex (\<lambda>(a', uc). a' = a \<and> is_pending uc p) cs)"

text \<open>Example states: an empty store, a socket without faults, two addresses.\<close>

definition empty_database :: Database where
  "empty_database = \<lparr>players = [], game_sessions = [], player_events = [], chat_messages = [], faults = []\<rparr>"

definition open_conn :: UDPConn where
  "open_conn = \<lparr>written = [], write_faults = []\<rparr>"

definition addr_A :: UDPAddr where
  "addr_A = \<lparr>addr_String = ''10.0.0.1:4000'', addr_IP = ''10.0.0.1''\<rparr>"

definition addr_B :: UDPAddr where
  "addr_B = \<lparr>addr_String = ''10.0.0.2:4000'', addr_IP = ''10.0.0.2''\<rparr>"

definition chat_packet :: UDPPacket where
  "chat_packet = NewUDPPacket 0 5 (NewChatMessage 2 ''hi'') True"

definition server_with_pending :: UDPGameServer where
  "server_with_pending =
     (NewUDPGameServer open_conn empty_database)
       \<lparr>UDPGameServer.clients :=
          [(''10.0.0.1:4000'',
            AddPendingAck 0 chat_packet (NewUDPClient 0 1 addr_A ''Player_00000000'' None))],
        clientByID := [(1, ''10.0.0.1:4000'')]\<rparr>"

text \<open>
  The client table and the reverse index agree: the keys of each are distinct, and the
  index maps the id of every client of the table to the address the client is stored under.
\<close>

definition index_consistent :: "UDPGameServer \<Rightarrow> bool" where
  "index_consistent ugs \<longleftrightarrow>
     distinct (map fst (UDPGameServer.clients ugs)) \<and>
     distinct (map fst (clientByID ugs)) \<and>
     list_all (\<lambda>(addrStr, client). map_of (clientByID ugs) (UDPClient.ID client) = Some addrStr)
       (UDPGameServer.clients ugs)"

text \<open>
  What every run leads to: the table is empty, or it holds the one client whose admission
  still holds the write lock.
\<close>

definition admitted_at_most_one :: "UDPGameServer \<Rightarrow> bool" where
  "admitted_at_most_one ugs \<longleftrightarrow>
     (UDPGameServer.clients ugs = [] \<and> clientByID ugs = []) \<or>
     (writer (UDPGameServer.mu ugs) \<and>
      (\<exists>a c. UDPGameServer.clients ugs = [(a, c)] \<and> clientByID ugs = [(UDPClient.ID c, a)]))"

text \<open>Example state: two clients, last seen at instant 0 and at 20 s.\<close>

definition client_seen_at :: "time \<Rightarrow> uuid \<Rightarrow> UDPAddr \<Rightarrow> UDPClient" where
  "client_seen_at t pid addr = NewUDPClient t pid addr (''Player_'' @ take 8 (uuid_String pid)) None"

definition server_with_two :: UDPGameServer where
  "server_with_two =
     (NewUDPGameServer open_conn empty_database)
       \<lparr>UDPGameServer.clients :=
          [(''10.0.0.1:4000'', client_seen_at 0 1 addr_A),
           (''10.0.0.2:4000'', client_seen_at (20 * Second) 2 addr_B)],
        clientByID := [(1, ''10.0.0.1:4000''), (2, ''10.0.0.2:4000'')]\<rparr>"





definition move_events :: "Database \<Rightarrow> (string \<times> GameMessage option) list" where
  "move_events d = map (\<lambda>r. (EventType r, EventData r)) (player_events d)"

text \<open>
  The positions the store holds for a player id, and the scenario of 25 moves with the
  sequences 1 to 25.
\<close>

definition stored_positions :: "uuid \<Rightarrow> Database \<Rightarrow> (float64 \<times> float64) list" where
  "stored_positions pid d =
     map (\<lambda>r. (DBPlayer.X r, DBPlayer.Y r)) (filter (\<lambda>r. DBPlayer.ID r = uuid_String pid) (players d))"




text \<open>
  The player id a decoded message carries, as \<open>HandleMessage\<close> reads it: the string under
  \<open>player_id\<close> of the payload object, parsed.
\<close>

definition payload_player_id :: "(string \<Rightarrow> uuid option) \<Rightarrow> GameMessage \<Rightarrow> uuid option" where
  "payload_player_id Parse message =
     (case as_object (Data message) of
        None \<Rightarrow> None
      | Some data \<Rightarrow>
          (case as_string (map_of data ''player_id'') of
             None \<Rightarrow> None
           | Some playerIDStr \<Rightarrow> Parse playerIDStr))"

definition payload_action :: "GameMessage \<Rightarrow> string option" where
  "payload_action message =
     (case as_object (Data message) of
        None \<Rightarrow> None
      | Some data \<Rightarrow> as_string (map_of data ''action''))"

text \<open>
  Example state of the stream transport: one client with id 1; a parser that knows the
  renderings of the ids 1 and 2; a decoded \<open>PlayerAction\<close> message.
\<close>

definition game_with_one :: GameState where
  "game_with_one =
     (NewGameState empty_database)
       \<lparr>GameState.clients := [(1, NewClient 1 ''127.0.0.1:0'' ''Player_00000000'')]\<rparr>"

definition parse_one_two :: "string \<Rightarrow> uuid option" where
  "parse_one_two s =
     (if s = ''00000000-0000-0000-0000-000000000001'' then Some 1
      else if s = ''00000000-0000-0000-0000-000000000002'' then Some 2
      else None)"

definition action_message :: "string \<Rightarrow> string \<Rightarrow> GameMessage" where
  "action_message playerIDStr action =
     \<lparr>Type = ''PlayerAction'',
      Data = Decoded (JObject [(''player_id'', JString playerIDStr), (''action'', JString action)])\<rparr>"

text \<open>
  A store that accepts its next statement, and a session row to end.
\<close>

definition accepts_next :: "Database \<Rightarrow> bool" where
  "accepts_next d = (case faults d of [] \<Rightarrow> True | f # fs \<Rightarrow> \<not> f)"

definition database_with_session :: Database where
  "database_with_session = insert_session 0 1 ''websocket'' None empty_database"









section \<open>Theorems\<close>

subsection \<open>Only reliable packets await acknowledgement, and only those are sent again\<close>

lemma list_all_update:
  "list_all P al \<Longrightarrow> P (k, v) \<Longrightarrow> list_all P (AList.update k v al)"
  by (induction al) auto

lemma list_all_delete:
  "list_all P al \<Longrightarrow> list_all P (AList.delete k al)"
  by (induction al) auto

lemma list_all_map_of:
  "list_all P al \<Longrightarrow> map_of al k = Some v \<Longrightarrow> P (k, v)"
  by (induction al) (auto split: if_splits)

lemma state_of_and_then:
  assumes "P (state_of r)" and "\<And>s. P s \<Longrightarrow> P (state_of (f s))"
  shows "P (state_of (and_then r f))"
  using assms by (cases r) (simp_all add: and_then_def)

lemma clients_sendAck [simp]:
  "UDPGameServer.clients (sendAck now addr sequence ugs) = UDPGameServer.clients ugs"
  by (simp add: sendAck_def Let_def split: prod.splits)

lemma packets_reliable_AddPendingAck:
  "packets_reliable (PendingAcks uc) \<Longrightarrow> Reliable packet \<Longrightarrow>
   packets_reliable (PendingAcks (AddPendingAck now packet uc))"
  by (simp add: AddPendingAck_def packets_reliable_def list_all_update)

lemma PendingAcks_NextSequence [simp]:
  "PendingAcks (snd (NextSequence uc)) = PendingAcks uc"
  by (simp add: NextSequence_def)

lemma packets_reliable_RemovePendingAck:
  "packets_reliable (PendingAcks uc) \<Longrightarrow> packets_reliable (PendingAcks (snd (RemovePendingAck q uc)))"
  by (simp add: RemovePendingAck_def Let_def packets_reliable_def list_all_delete)

lemma broadcastReliable_loop_reliable:
  "list_all (\<lambda>(a, uc). packets_reliable (PendingAcks uc)) cs \<Longrightarrow>
   list_all (\<lambda>(a, uc). packets_reliable (PendingAcks uc)) (fst (broadcastReliable_loop now m ex cs c))"
proof (induction cs arbitrary: c)
  case Nil
  then show ?case by simp
next
  case (Cons e cs)
  obtain a uc where e: "e = (a, uc)" by (cases e)
  from Cons.prems e have uc: "packets_reliable (PendingAcks uc)"
    and rest: "list_all (\<lambda>(a, uc). packets_reliable (PendingAcks uc)) cs" by simp_all
  have new: "packets_reliable (PendingAcks (AddPendingAck now (NewUDPPacket now q m True) (snd (NextSequence uc))))" for q
    using uc by (intro packets_reliable_AddPendingAck) (simp_all add: NewUDPPacket_def)
  show ?case
    using Cons.IH [OF rest] uc new
    by (auto simp add: e Let_def split_beta NextSequence_def)
qed

lemma resend_loop_reliable:
  "packets_reliable (PendingAcks uc) \<Longrightarrow>
   packets_reliable (PendingAcks (fst (resend_loop now a seqs uc c)))"
proof (induction seqs arbitrary: uc c)
  case Nil
  then show ?case by simp
next
  case (Cons q seqs)
  show ?case
  proof (cases "map_of (PendingAcks uc) q")
    case None
    then show ?thesis using Cons by simp
  next
    case (Some pending)
    have rel: "Reliable (Packet pending)"
      using list_all_map_of [OF Cons.prems [unfolded packets_reliable_def] Some] by simp
    have upd: "packets_reliable (PendingAcks (uc\<lparr>PendingAcks :=
                 AList.update q (pending\<lparr>PendingPacket.Timestamp := now\<rparr>) (PendingAcks uc)\<rparr>))"
      using Cons.prems rel by (simp add: packets_reliable_def list_all_update)
    show ?thesis
      using Some Cons.IH [OF upd] Cons.IH [OF Cons.prems]
      by (simp add: Let_def split_beta)
  qed
qed

lemma reliability_loop_reliable:
  "list_all (\<lambda>(a, uc). packets_reliable (PendingAcks uc)) cs \<Longrightarrow>
   list_all (\<lambda>(a, uc). packets_reliable (PendingAcks uc)) (fst (reliability_loop now cs c))"
proof (induction cs arbitrary: c)
  case Nil
  then show ?case by simp
next
  case (Cons e cs)
  obtain a uc where e: "e = (a, uc)" by (cases e)
  from Cons.prems e have uc: "packets_reliable (PendingAcks uc)"
    and rest: "list_all (\<lambda>(a, uc). packets_reliable (PendingAcks uc)) cs" by simp_all
  show ?case
    using Cons.IH [OF rest] resend_loop_reliable [OF uc]
    by (simp add: e Let_def split_beta)
qed

lemma pending_reliable_sendAck [simp]:
  "pending_reliable (sendAck now addr sequence ugs) = pending_reliable ugs"
  by (simp add: pending_reliable_def)

lemma pending_reliable_mu [simp]:
  "pending_reliable (ugs\<lparr>UDPGameServer.mu := m\<rparr>) = pending_reliable ugs"
  by (simp add: pending_reliable_def)

lemma pending_reliable_conn [simp]:
  "pending_reliable (ugs\<lparr>conn := c\<rparr>) = pending_reliable ugs"
  by (simp add: pending_reliable_def)

lemma pending_reliable_database [simp]:
  "pending_reliable (ugs\<lparr>UDPGameServer.database := d\<rparr>) = pending_reliable ugs"
  by (simp add: pending_reliable_def)

lemma pending_reliable_clientByID [simp]:
  "pending_reliable (ugs\<lparr>clientByID := x\<rparr>) = pending_reliable ugs"
  by (simp add: pending_reliable_def)

lemma pending_reliable_store_client:
  "pending_reliable ugs \<Longrightarrow> packets_reliable (PendingAcks client) \<Longrightarrow>
   pending_reliable (store_client addr client ugs)"
  by (simp add: pending_reliable_def store_client_def list_all_update)

lemma pending_reliable_lookup:
  "pending_reliable ugs \<Longrightarrow> map_of (UDPGameServer.clients ugs) a = Some client \<Longrightarrow>
   packets_reliable (PendingAcks client)"
  using list_all_map_of [of "\<lambda>(a, uc). packets_reliable (PendingAcks uc)"]
  by (fastforce simp: pending_reliable_def)

lemma pending_reliable_broadcastReliable:
  "pending_reliable ugs \<Longrightarrow> pending_reliable (state_of (broadcastReliable now m ex ugs))"
  using broadcastReliable_loop_reliable [of "UDPGameServer.clients ugs" now m ex "conn ugs"]
  by (simp add: broadcastReliable_def pending_reliable_def split_beta split: option.splits)

lemma pending_reliable_broadcastUnreliable:
  "pending_reliable ugs \<Longrightarrow> pending_reliable (state_of (broadcastUnreliable now m ex ugs))"
  by (simp add: broadcastUnreliable_def split: option.splits)

lemma pending_reliable_sendGameState:
  "pending_reliable ugs \<Longrightarrow> pending_reliable (state_of (UDP_sendGameStateToClient now addr ugs))"
proof -
  assume inv: "pending_reliable ugs"
  have "packets_reliable (PendingAcks (AddPendingAck now (NewUDPPacket now q m True) (snd (NextSequence client))))"
    if "map_of (UDPGameServer.clients ugs) (addr_String addr) = Some client" for client q m
    using pending_reliable_lookup [OF inv that]
    by (intro packets_reliable_AddPendingAck) (simp_all add: NewUDPPacket_def)
  then show ?thesis
    using inv
    by (auto simp: UDP_sendGameStateToClient_def Let_def split_beta pending_reliable_def
          list_all_update NextSequence_def split: option.splits)
qed

lemma pending_reliable_admit:
  "pending_reliable ugs \<Longrightarrow> pending_reliable (admit now addr pid ugs)"
  by (simp add: admit_def Let_def split_beta pending_reliable_def list_all_update
        NewUDPClient_def packets_reliable_def)

lemma pending_reliable_touch:
  assumes "pending_reliable ugs"
  shows "pending_reliable (touch now addr q ugs)"
proof (cases "map_of (UDPGameServer.clients ugs) (addr_String addr)")
  case None
  then show ?thesis using assms by (simp add: touch_def)
next
  case (Some client)
  then show ?thesis
    using assms pending_reliable_lookup [OF assms Some]
    by (simp add: touch_def pending_reliable_def list_all_update)
qed

lemma pending_reliable_handleHeartbeat:
  assumes inv: "pending_reliable ugs"
  shows "pending_reliable (state_of (handleHeartbeat now addr pid q ugs))"
proof (cases "Lock (UDPGameServer.mu ugs)")
  case None
  then show ?thesis using inv by (simp add: handleHeartbeat_def)
next
  case (Some m)
  have m: "pending_reliable (ugs\<lparr>UDPGameServer.mu := m\<rparr>)" using inv by simp
  note pr_and_then = state_of_and_then [where P = pending_reliable]
  show ?thesis
    unfolding handleHeartbeat_def Some option.case
    by (rule pr_and_then)
       (auto intro!: pr_and_then pending_reliable_broadcastReliable pending_reliable_sendGameState
          pending_reliable_admit pending_reliable_touch m)
qed

lemma lookup_client_cases:
  obtains (waits) "lookup_client addr ugs = None"
  | (found) m where
      "lookup_client addr ugs =
         Some (map_of (UDPGameServer.clients ugs) (addr_String addr), ugs\<lparr>UDPGameServer.mu := m\<rparr>)"
  by (cases "RLock (UDPGameServer.mu ugs)") (simp_all add: lookup_client_def)

lemma pending_reliable_handleAck:
  assumes inv: "pending_reliable ugs"
  shows "pending_reliable (state_of (handleAck addr q ugs))"
proof (cases rule: lookup_client_cases [of addr ugs])
  case waits
  then show ?thesis using inv by (simp add: handleAck_def)
next
  case (found m)
  show ?thesis
  proof (cases "map_of (UDPGameServer.clients ugs) (addr_String addr)")
    case None
    then show ?thesis using inv found by (simp add: handleAck_def)
  next
    case (Some client)
    have "packets_reliable (PendingAcks (snd (RemovePendingAck q client)))"
      using pending_reliable_lookup [OF inv Some] by (rule packets_reliable_RemovePendingAck)
    then show ?thesis
      using inv found Some by (simp add: handleAck_def pending_reliable_store_client)
  qed
qed

lemma pending_reliable_handlePlayerMove:
  assumes inv: "pending_reliable ugs"
  shows "pending_reliable (state_of (handlePlayerMove now addr pid x y q ugs))"
proof (cases rule: lookup_client_cases [of addr ugs])
  case waits
  then show ?thesis using inv by (simp add: handlePlayerMove_def)
next
  case (found m)
  show ?thesis
  proof (cases "map_of (UDPGameServer.clients ugs) (addr_String addr)")
    case None
    then show ?thesis using inv found by (simp add: handlePlayerMove_def)
  next
    case (Some client)
    have "packets_reliable (PendingAcks (UDPClient_UpdatePosition now x y client))"
      using pending_reliable_lookup [OF inv Some] by (simp add: UDPClient_UpdatePosition_def)
    then have "pending_reliable (store_client addr (UDPClient_UpdatePosition now x y client)
                  (ugs\<lparr>UDPGameServer.mu := m\<rparr>))"
      using inv by (simp add: pending_reliable_store_client)
    then show ?thesis
      using inv found Some
      by (simp add: handlePlayerMove_def Let_def split_beta pending_reliable_broadcastUnreliable)
  qed
qed

lemma pending_reliable_handlePlayerAction:
  assumes inv: "pending_reliable ugs"
  shows "pending_reliable (state_of (UDP_handlePlayerAction now addr pid action data q ugs))"
proof (cases rule: lookup_client_cases [of addr ugs])
  case waits
  then show ?thesis using inv by (simp add: UDP_handlePlayerAction_def)
next
  case (found m)
  show ?thesis
  proof (cases "map_of (UDPGameServer.clients ugs) (addr_String addr)")
    case None
    then show ?thesis using inv found by (simp add: UDP_handlePlayerAction_def)
  next
    case (Some client)
    have "packets_reliable (PendingAcks (UDPClient_AddScore 10 client))"
      using pending_reliable_lookup [OF inv Some] by (simp add: UDPClient_AddScore_def)
    then have "pending_reliable (store_client addr (UDPClient_AddScore 10 client)
                  (ugs\<lparr>UDPGameServer.mu := m\<rparr>))"
      using inv by (simp add: pending_reliable_store_client)
    then show ?thesis
      using inv found Some
      by (simp add: UDP_handlePlayerAction_def Let_def split_beta)
  qed
qed

lemma pending_reliable_handleChat:
  assumes inv: "pending_reliable ugs"
  shows "pending_reliable (state_of (handleChat now addr pid msg q ugs))"
proof (cases rule: lookup_client_cases [of addr ugs])
  case waits
  then show ?thesis using inv by (simp add: handleChat_def)
next
  case (found m)
  show ?thesis
  proof (cases "map_of (UDPGameServer.clients ugs) (addr_String addr)")
    case None
    then show ?thesis using inv found by (simp add: handleChat_def)
  next
    case (Some client)
    show ?thesis
      using inv found Some
      by (simp add: handleChat_def Let_def split_beta pending_reliable_broadcastReliable)
  qed
qed

lemma pending_reliable_remove_client:
  "pending_reliable ugs \<Longrightarrow> pending_reliable (remove_client e ugs)"
  by (simp add: remove_client_def pending_reliable_def list_all_delete)

lemma pending_reliable_fold_remove:
  "pending_reliable ugs \<Longrightarrow> pending_reliable (fold remove_client es ugs)"
  by (induction es arbitrary: ugs) (simp_all add: pending_reliable_remove_client)

lemma pending_reliable_ticks:
  assumes inv: "pending_reliable ugs"
  shows "pending_reliable (state_of (startHeartbeatTask_tick now ugs))"
    and "pending_reliable (state_of (startCleanupTask_tick now ugs))"
    and "pending_reliable (state_of (startReliabilityTask_tick now ugs))"
proof -
  show "pending_reliable (state_of (startHeartbeatTask_tick now ugs))"
    using inv by (simp add: startHeartbeatTask_tick_def split: option.splits)
  show "pending_reliable (state_of (startCleanupTask_tick now ugs))"
    using inv by (simp add: startCleanupTask_tick_def Let_def pending_reliable_fold_remove split: option.splits)
  have "list_all (\<lambda>(a, uc). packets_reliable (PendingAcks uc))
          (fst (reliability_loop now (UDPGameServer.clients ugs) (conn ugs)))"
    using inv unfolding pending_reliable_def by (rule reliability_loop_reliable)
  then show "pending_reliable (state_of (startReliabilityTask_tick now ugs))"
    using inv by (simp add: startReliabilityTask_tick_def split_beta pending_reliable_def split: option.splits)
qed

lemma pending_reliable_step:
  "pending_reliable ugs \<Longrightarrow> pending_reliable (state_of (step now e ugs))"
  by (cases e)
     (simp_all add: pending_reliable_handleHeartbeat pending_reliable_handleAck
        pending_reliable_handlePlayerMove pending_reliable_handlePlayerAction
        pending_reliable_handleChat pending_reliable_ticks)

lemma pending_reliable_fresh: "pending_reliable (NewUDPGameServer c d)"
  by (simp add: NewUDPGameServer_def pending_reliable_def)

lemma WriteToUDP_written:
  "written (snd (WriteToUDP p a c)) =
     (if fst (WriteToUDP p a c) = None then written c @ [(a, p)] else written c)"
  by (simp add: WriteToUDP_def split: list.splits)

lemma is_pending_update:
  assumes "map_of (PendingAcks uc) q = Some pending"
  shows "is_pending (uc\<lparr>PendingAcks := AList.update q (pending\<lparr>PendingPacket.Timestamp := t\<rparr>) (PendingAcks uc)\<rparr>) p
         \<longleftrightarrow> is_pending uc p"
proof -
  have "list_ex (\<lambda>(q, pp). Packet pp = p) (AList.update q (pending\<lparr>PendingPacket.Timestamp := t\<rparr>) al)
        \<longleftrightarrow> list_ex (\<lambda>(q, pp). Packet pp = p) al"
    if "map_of al q = Some pending" for al
    using that by (induction al) (auto split: if_splits)
  then show ?thesis using assms by (simp add: is_pending_def)
qed

lemma is_pending_map_of:
  "map_of (PendingAcks uc) q = Some pending \<Longrightarrow> is_pending uc (Packet pending)"
  unfolding is_pending_def list_ex_iff by (force dest: map_of_SomeD)

lemma resend_loop_written:
  "\<exists>ws. written (snd (resend_loop now a seqs uc c)) = written c @ ws
        \<and> list_all (\<lambda>(a', p). a' = a \<and> is_pending uc p) ws"
proof (induction seqs arbitrary: uc c)
  case Nil
  then show ?case by simp
next
  case (Cons q seqs)
  show ?case
  proof (cases "map_of (PendingAcks uc) q")
    case None
    then show ?thesis using Cons.IH [of uc c] by simp
  next
    case (Some pending)
    let ?w = "WriteToUDP (Packet pending) a c"
    let ?uc = "uc\<lparr>PendingAcks := AList.update q (pending\<lparr>PendingPacket.Timestamp := now\<rparr>) (PendingAcks uc)\<rparr>"
    show ?thesis
    proof (cases "fst ?w = None")
      case True
      from Cons.IH [of ?uc "snd ?w"] obtain ws where
        ws: "written (snd (resend_loop now a seqs ?uc (snd ?w))) = written (snd ?w) @ ws"
            "list_all (\<lambda>(a', p). a' = a \<and> is_pending ?uc p) ws" by blast
      have "list_all (\<lambda>(a', p). a' = a \<and> is_pending uc p) ((a, Packet pending) # ws)"
        using ws(2) is_pending_map_of [OF Some] by (simp add: is_pending_update [OF Some])
      moreover have "resend_loop now a (q # seqs) uc c = resend_loop now a seqs ?uc (snd ?w)"
        using Some True by (simp add: Let_def split_beta)
      moreover have "written (snd ?w) = written c @ [(a, Packet pending)]"
        using True by (simp add: WriteToUDP_written)
      ultimately show ?thesis
        using ws(1) by (intro exI [of _ "(a, Packet pending) # ws"]) simp
    next
      case False
      from Cons.IH [of uc "snd ?w"] obtain ws where
        ws: "written (snd (resend_loop now a seqs uc (snd ?w))) = written (snd ?w) @ ws"
            "list_all (\<lambda>(a', p). a' = a \<and> is_pending uc p) ws" by blast
      moreover have "resend_loop now a (q # seqs) uc c = resend_loop now a seqs uc (snd ?w)"
        using Some False by (auto simp add: Let_def split_beta)
      moreover have "written (snd ?w) = written c"
        using False by (simp add: WriteToUDP_written)
      ultimately show ?thesis
        by (intro exI [of _ ws]) simp
    qed
  qed
qed

lemma list_all_pending_for_Cons:
  "list_all (pending_for cs) ws \<Longrightarrow> list_all (pending_for (e # cs)) ws"
  by (induction ws) (auto simp: pending_for_def)

lemma reliability_loop_written:
  "\<exists>ws. written (snd (reliability_loop now cs c)) = written c @ ws \<and> list_all (pending_for cs) ws"
proof (induction cs arbitrary: c)
  case Nil
  then show ?case by simp
next
  case (Cons e cs)
  obtain a uc where e: "e = (a, uc)" by (cases e)
  let ?r = "resend_loop now a (GetTimeoutPackets now uc) uc c"
  obtain ws1 where ws1: "written (snd ?r) = written c @ ws1"
      "list_all (\<lambda>(a', p). a' = a \<and> is_pending uc p) ws1"
    using resend_loop_written by blast
  obtain ws2 where ws2: "written (snd (reliability_loop now cs (snd ?r))) = written (snd ?r) @ ws2"
      "list_all (pending_for cs) ws2"
    using Cons.IH by blast
  have "list_all (pending_for (e # cs)) ws1"
    using ws1(2) by (induction ws1) (auto simp: pending_for_def e)
  then have "list_all (pending_for (e # cs)) (ws1 @ ws2)"
    using ws2(2) by (simp add: list_all_pending_for_Cons)
  moreover have "reliability_loop now (e # cs) c =
      ((a, fst ?r) # fst (reliability_loop now cs (snd ?r)), snd (reliability_loop now cs (snd ?r)))"
    by (simp add: e Let_def split_beta)
  ultimately show ?case
    using ws1(1) ws2(1) by (intro exI [of _ "ws1 @ ws2"]) simp
qed

lemma tick_resends_pending:
  "list_all (pending_for (UDPGameServer.clients ugs))
     (newly_written ugs (state_of (startReliabilityTask_tick now ugs)))"
proof -
  obtain ws where "written (snd (reliability_loop now (UDPGameServer.clients ugs) (conn ugs)))
                     = written (conn ugs) @ ws" "list_all (pending_for (UDPGameServer.clients ugs)) ws"
    using reliability_loop_written by blast
  then show ?thesis
    by (simp add: startReliabilityTask_tick_def newly_written_def split_beta split: option.splits)
qed

lemma pending_for_reliable:
  assumes "pending_reliable ugs" and "pending_for (UDPGameServer.clients ugs) (a, p)"
  shows "Reliable p"
  using assms
  by (fastforce simp: pending_reliable_def pending_for_def is_pending_def packets_reliable_def
        list_all_iff list_ex_iff)

lemma tick_resends_reliable:
  assumes "pending_reliable ugs"
  shows "list_all (\<lambda>(a, p). Reliable p)
     (newly_written ugs (state_of (startReliabilityTask_tick now ugs)))"
  using tick_resends_pending [of ugs now] pending_for_reliable [OF assms]
  by (induction "newly_written ugs (state_of (startReliabilityTask_tick now ugs))")
     (auto simp: list_all_iff)

lemma reachable_pending_reliable: "reachable ugs \<Longrightarrow> pending_reliable ugs"
  by (induction rule: reachable.induct) (simp_all add: pending_reliable_fresh pending_reliable_step)

text \<open>
  Claim C1. A fresh server has no pending packet, every handler and every ticker keeps
  the property that all packets in every client's \<open>PendingAcks\<close> have \<open>reliable=true\<close>, so
  it holds in every reachable state. Every datagram the retransmission sweep writes is a
  packet of the \<open>PendingAcks\<close> of the client it is addressed to, hence a reliable one: a
  packet sent with \<open>reliable=false\<close> is never sent again.
\<close>

theorem retransmits_only_reliable_pending:
  "pending_reliable (NewUDPGameServer c d)
   \<and> (pending_reliable ugs \<longrightarrow> pending_reliable (state_of (step now e ugs)))
   \<and> (reachable ugs' \<longrightarrow> pending_reliable ugs')
   \<and> list_all (pending_for (UDPGameServer.clients ugs))
        (newly_written ugs (state_of (startReliabilityTask_tick now ugs)))
   \<and> (pending_reliable ugs \<longrightarrow>
        list_all (\<lambda>(a, p). Reliable p) (newly_written ugs (state_of (startReliabilityTask_tick now ugs))))"
  using pending_reliable_fresh pending_reliable_step reachable_pending_reliable
    tick_resends_pending tick_resends_reliable
  by blast

lemma tick_resends_example: "newly_written server_with_pending
        (state_of (startReliabilityTask_tick (200 * Millisecond) server_with_pending))
      = [(''10.0.0.1:4000'', chat_packet)]"
  by (simp add: server_with_pending_def startReliabilityTask_tick_def NewUDPGameServer_def
        NewRWMutex_def RLock_def RUnlock_def open_conn_def AddPendingAck_def NewUDPClient_def
        GetTimeoutPackets_def Since_def Millisecond_def WriteToUDP_def newly_written_def)

text \<open>
  Witness for C1: a client with one reliable chat packet pending since instant 0; the
  sweep at 200 ms sends exactly that packet again.
\<close>

theorem retransmits_only_reliable_pending_witness:
  "pending_reliable server_with_pending
   \<and> reachable (NewUDPGameServer open_conn empty_database)
   \<and> pending_reliable (state_of (step (200 * Millisecond) ReliabilityTick server_with_pending))
   \<and> pending_reliable (NewUDPGameServer open_conn empty_database)
   \<and> newly_written server_with_pending
        (state_of (startReliabilityTask_tick (200 * Millisecond) server_with_pending))
      = [(''10.0.0.1:4000'', chat_packet)]
   \<and> list_all (\<lambda>(a, p). Reliable p)
        (newly_written server_with_pending
          (state_of (startReliabilityTask_tick (200 * Millisecond) server_with_pending)))"
proof -
  have inv: "pending_reliable server_with_pending"
    by (simp add: server_with_pending_def pending_reliable_def packets_reliable_def
          AddPendingAck_def NewUDPClient_def chat_packet_def NewUDPPacket_def NewUDPGameServer_def)
  have fresh: "reachable (NewUDPGameServer open_conn empty_database)"
    by (rule reachable.fresh)
  show ?thesis
    using inv fresh tick_resends_example
      retransmits_only_reliable_pending [of open_conn empty_database server_with_pending
        "200 * Millisecond" ReliabilityTick "NewUDPGameServer open_conn empty_database"]
    by simp
qed

subsection \<open>The client table and the reverse index\<close>

lemma Lock_Some_writer: "Lock m = Some m' \<Longrightarrow> writer m' \<and> \<not> writer m"
  by (auto simp: Lock_def split: if_splits)

lemma writer_blocks: "writer m \<Longrightarrow> Lock m = None \<and> RLock m = None"
  by (simp add: Lock_def RLock_def)

lemma admit_fields:
  "UDPGameServer.mu (admit now addr pid ugs) = UDPGameServer.mu ugs"
  "conn (admit now addr pid ugs) = conn ugs"
  "clientByID (admit now addr pid ugs) = AList.update pid (addr_String addr) (clientByID ugs)"
  "UDPGameServer.clients (admit now addr pid ugs) =
     AList.update (addr_String addr)
       (NewUDPClient now pid addr (''Player_'' @ take 8 (uuid_String pid))
          (case fst (CreateSession now pid ''udp'' (Some (addr_IP addr)) (UDPGameServer.database ugs)) of
             Inl err \<Rightarrow> None | Inr i \<Rightarrow> Some i))
       (UDPGameServer.clients ugs)"
  by (simp_all add: admit_def Let_def split_beta)

text \<open>
  Admission never returns: \<open>handleHeartbeat\<close> holds the write lock while
  \<open>broadcastReliable\<close> asks for the read lock of the same mutex.
\<close>

lemma admission_waits_forever:
  assumes "Lock (UDPGameServer.mu ugs) = Some m"
    and "map_of (UDPGameServer.clients ugs) (addr_String addr) = None"
  shows "handleHeartbeat now addr pid q ugs = Blocked (admit now addr pid (ugs\<lparr>UDPGameServer.mu := m\<rparr>))"
proof -
  have "writer m" using assms(1) by (simp add: Lock_Some_writer)
  then have "broadcastReliable now msg ex (admit now addr pid (ugs\<lparr>UDPGameServer.mu := m\<rparr>))
             = Blocked (admit now addr pid (ugs\<lparr>UDPGameServer.mu := m\<rparr>))" for msg ex
    by (simp add: broadcastReliable_def admit_fields writer_blocks)
  then show ?thesis
    using assms by (simp add: handleHeartbeat_def and_then_def)
qed

lemma held_mutex_stops_step:
  assumes "writer (UDPGameServer.mu ugs)"
  shows "step now e ugs = Blocked ugs"
  using writer_blocks [OF assms]
  by (cases e)
     (simp_all add: handleHeartbeat_def handleAck_def handlePlayerMove_def UDP_handlePlayerAction_def
        handleChat_def lookup_client_def startHeartbeatTask_tick_def startCleanupTask_tick_def
        startReliabilityTask_tick_def)

lemma empty_table_step:
  assumes "UDPGameServer.clients ugs = []" and "clientByID ugs = []"
  shows "admitted_at_most_one (state_of (step now e ugs))"
proof (cases e)
  case (Heartbeat addr pid q)
  show ?thesis
  proof (cases "Lock (UDPGameServer.mu ugs)")
    case None
    then show ?thesis using assms Heartbeat by (simp add: handleHeartbeat_def admitted_at_most_one_def)
  next
    case (Some m)
    have "handleHeartbeat now addr pid q ugs = Blocked (admit now addr pid (ugs\<lparr>UDPGameServer.mu := m\<rparr>))"
      using Some assms by (intro admission_waits_forever) simp_all
    moreover have "writer m" using Some by (simp add: Lock_Some_writer)
    ultimately show ?thesis
      using assms Heartbeat
      by (simp add: admitted_at_most_one_def admit_def Let_def split_beta NewUDPClient_def)
  qed
next
  case (Ack addr q)
  then show ?thesis using assms
    by (simp add: handleAck_def lookup_client_def admitted_at_most_one_def split: option.splits)
next
  case (PlayerMove addr pid x y q)
  then show ?thesis using assms
    by (simp add: handlePlayerMove_def lookup_client_def admitted_at_most_one_def split: option.splits)
next
  case (PlayerAction addr pid action data q)
  then show ?thesis using assms
    by (simp add: UDP_handlePlayerAction_def lookup_client_def admitted_at_most_one_def split: option.splits)
next
  case (Chat addr pid msg q)
  then show ?thesis using assms
    by (simp add: handleChat_def lookup_client_def admitted_at_most_one_def split: option.splits)
next
  case HeartbeatTick
  then show ?thesis using assms
    by (simp add: startHeartbeatTask_tick_def admitted_at_most_one_def split: option.splits)
next
  case CleanupTick
  then show ?thesis using assms
    by (simp add: startCleanupTask_tick_def admitted_at_most_one_def split: option.splits)
next
  case ReliabilityTick
  then show ?thesis using assms
    by (simp add: startReliabilityTask_tick_def admitted_at_most_one_def split: option.splits)
qed

lemma reachable_admitted_at_most_one: "reachable ugs \<Longrightarrow> admitted_at_most_one ugs"
proof (induction rule: reachable.induct)
  case (fresh c d)
  then show ?case by (simp add: admitted_at_most_one_def NewUDPGameServer_def)
next
  case (after ugs now e)
  then show ?case
    unfolding admitted_at_most_one_def [of ugs]
    using empty_table_step [of ugs now e] held_mutex_stops_step [of ugs now e]
    by (auto simp: admitted_at_most_one_def)
qed

lemma admitted_at_most_one_consistent: "admitted_at_most_one ugs \<Longrightarrow> index_consistent ugs"
  by (auto simp: admitted_at_most_one_def index_consistent_def)

lemma admission_inserts_both:
  assumes "Lock (UDPGameServer.mu ugs) \<noteq> None"
    and "map_of (UDPGameServer.clients ugs) (addr_String addr) = None"
  shows "(\<exists>c. map_of (UDPGameServer.clients (state_of (handleHeartbeat now addr pid q ugs))) (addr_String addr) = Some c
              \<and> UDPClient.ID c = pid)
         \<and> map_of (clientByID (state_of (handleHeartbeat now addr pid q ugs))) pid = Some (addr_String addr)"
proof -
  from assms(1) obtain m where m: "Lock (UDPGameServer.mu ugs) = Some m" by blast
  show ?thesis
    by (simp add: admission_waits_forever [OF m assms(2)] admit_fields AList.update_conv' NewUDPClient_def)
qed

lemma remove_client_fields [simp]:
  "UDPGameServer.clients (remove_client e ugs) = AList.delete (fst e) (UDPGameServer.clients ugs)"
  "clientByID (remove_client e ugs) = AList.delete (snd e) (clientByID ugs)"
  "conn (remove_client e ugs) = conn ugs"
  "UDPGameServer.database (remove_client e ugs) = UDPGameServer.database ugs"
  "UDPGameServer.mu (remove_client e ugs) = UDPGameServer.mu ugs"
  by (simp_all add: remove_client_def)

lemma fold_remove_client_fields:
  "conn (fold remove_client es ugs) = conn ugs"
  "UDPGameServer.database (fold remove_client es ugs) = UDPGameServer.database ugs"
  "UDPGameServer.mu (fold remove_client es ugs) = UDPGameServer.mu ugs"
  by (induction es arbitrary: ugs) simp_all

lemma fold_remove_client_clients:
  "UDPGameServer.clients (fold remove_client es ugs) =
     filter (\<lambda>(a, c). a \<notin> fst ` set es) (UDPGameServer.clients ugs)"
proof (induction es arbitrary: ugs)
  case Nil
  then show ?case by simp
next
  case (Cons e es)
  have "filter (\<lambda>(a, c). a \<notin> fst ` set es) (AList.delete (fst e) al)
        = filter (\<lambda>(a, c). a \<notin> fst ` set (e # es)) al" for al :: "(string \<times> UDPClient) list"
    by (induction al) auto
  then show ?case
    by (simp add: Cons.IH)
qed

lemma fold_remove_client_index:
  "clientByID (fold remove_client es ugs) =
     filter (\<lambda>(i, a). i \<notin> snd ` set es) (clientByID ugs)"
proof (induction es arbitrary: ugs)
  case Nil
  then show ?case by simp
next
  case (Cons e es)
  have "filter (\<lambda>(i, a). i \<notin> snd ` set es) (AList.delete (snd e) al)
        = filter (\<lambda>(i, a). i \<notin> snd ` set (e # es)) al" for al :: "(uuid \<times> string) list"
    by (induction al) auto
  then show ?case
    by (simp add: Cons.IH)
qed

lemma zip_timed_out:
  "zip (map fst xs) (map (\<lambda>(addrStr, client). UDPClient.ID client) xs)
     = map (\<lambda>(addrStr, client). (addrStr, UDPClient.ID client)) xs"
  by (induction xs) auto

lemma map_of_filter_None:
  "\<not> P k \<Longrightarrow> map_of (filter (\<lambda>(k, v). P k) al) k = None"
  by (induction al) auto

lemma eviction_deletes_both:
  assumes "Lock (UDPGameServer.mu ugs) \<noteq> None"
    and "map_of (UDPGameServer.clients ugs) a = Some c" and "IsTimeout now c"
  shows "map_of (UDPGameServer.clients (state_of (startCleanupTask_tick now ugs))) a = None
       \<and> map_of (clientByID (state_of (startCleanupTask_tick now ugs))) (UDPClient.ID c) = None"
proof -
  from assms(1) obtain m where m: "Lock (UDPGameServer.mu ugs) = Some m" by blast
  let ?es = "map (\<lambda>(addrStr, client). (addrStr, UDPClient.ID client))
               (filter (\<lambda>(addrStr, client). IsTimeout now client) (UDPGameServer.clients ugs))"
  have "(a, c) \<in> set (UDPGameServer.clients ugs)" using assms(2) by (rule map_of_SomeD)
  then have "(a, UDPClient.ID c) \<in> set ?es" using assms(3) by force
  then have "a \<in> fst ` set ?es" "UDPClient.ID c \<in> snd ` set ?es" by force+
  then show ?thesis
    by (simp add: startCleanupTask_tick_def m Let_def zip_timed_out
          fold_remove_client_clients fold_remove_client_index map_of_filter_None)
qed

text \<open>
  Claim C2. In every reachable state of the datagram server the client table and the
  reverse index are consistent: addresses and ids are keys of at most one entry, and the
  index maps the id of every client in the table to the address it is stored under.
  Admission, when it gets the mutex, inserts the client under its address and the address
  under the carried id; the timeout sweep, when it gets the mutex, deletes a client last
  seen more than 30 s ago from the table and its id from the index.
\<close>

theorem client_table_and_index_consistent:
  "(reachable ugs \<longrightarrow> index_consistent ugs)
   \<and> (Lock (UDPGameServer.mu s) \<noteq> None \<and> map_of (UDPGameServer.clients s) (addr_String addr) = None \<longrightarrow>
        (\<exists>c. map_of (UDPGameServer.clients (state_of (handleHeartbeat now addr pid q s))) (addr_String addr) = Some c
              \<and> UDPClient.ID c = pid)
        \<and> map_of (clientByID (state_of (handleHeartbeat now addr pid q s))) pid = Some (addr_String addr))
   \<and> (Lock (UDPGameServer.mu s) \<noteq> None \<and> map_of (UDPGameServer.clients s) a = Some c \<and> IsTimeout now c \<longrightarrow>
        map_of (UDPGameServer.clients (state_of (startCleanupTask_tick now s))) a = None
        \<and> map_of (clientByID (state_of (startCleanupTask_tick now s))) (UDPClient.ID c) = None)"
  using reachable_admitted_at_most_one [THEN admitted_at_most_one_consistent]
    admission_inserts_both eviction_deletes_both
  by blast

text \<open>
  Witness for C2: the state after the first heartbeat of a fresh server, admission at a
  fresh server, and the sweep at 31 s over the two example clients.
\<close>

theorem client_table_and_index_consistent_witness:
  "reachable (state_of (step 0 (Heartbeat addr_A 1 7) (NewUDPGameServer open_conn empty_database)))
   \<and> index_consistent (state_of (step 0 (Heartbeat addr_A 1 7) (NewUDPGameServer open_conn empty_database)))
   \<and> Lock (UDPGameServer.mu (NewUDPGameServer open_conn empty_database)) \<noteq> None
   \<and> map_of (UDPGameServer.clients (NewUDPGameServer open_conn empty_database)) (addr_String addr_A) = None
   \<and> map_of (clientByID (state_of (handleHeartbeat 0 addr_A 1 7 (NewUDPGameServer open_conn empty_database)))) 1
        = Some (addr_String addr_A)
   \<and> Lock (UDPGameServer.mu server_with_two) \<noteq> None
   \<and> map_of (UDPGameServer.clients server_with_two) ''10.0.0.1:4000'' = Some (client_seen_at 0 1 addr_A)
   \<and> IsTimeout (31 * Second) (client_seen_at 0 1 addr_A)
   \<and> map_of (UDPGameServer.clients (state_of (startCleanupTask_tick (31 * Second) server_with_two)))
        ''10.0.0.1:4000'' = None
   \<and> map_of (clientByID (state_of (startCleanupTask_tick (31 * Second) server_with_two))) 1 = None"
proof -
  have r: "reachable (state_of (step 0 (Heartbeat addr_A 1 7) (NewUDPGameServer open_conn empty_database)))"
    by (intro reachable.after reachable.fresh)
  have l1: "Lock (UDPGameServer.mu (NewUDPGameServer open_conn empty_database)) \<noteq> None"
    and n1: "map_of (UDPGameServer.clients (NewUDPGameServer open_conn empty_database)) (addr_String addr_A) = None"
    by (simp_all add: NewUDPGameServer_def NewRWMutex_def Lock_def)
  have l2: "Lock (UDPGameServer.mu server_with_two) \<noteq> None"
    and c2: "map_of (UDPGameServer.clients server_with_two) ''10.0.0.1:4000'' = Some (client_seen_at 0 1 addr_A)"
    and t2: "IsTimeout (31 * Second) (client_seen_at 0 1 addr_A)"
    by (simp_all add: server_with_two_def NewUDPGameServer_def NewRWMutex_def Lock_def
          IsTimeout_def client_seen_at_def NewUDPClient_def Since_def Second_def)
  show ?thesis
    using r l1 n1 l2 c2 t2
      client_table_and_index_consistent
        [of "state_of (step 0 (Heartbeat addr_A 1 7) (NewUDPGameServer open_conn empty_database))"
            "NewUDPGameServer open_conn empty_database" addr_A 0 1 7]
      client_table_and_index_consistent
        [of "NewUDPGameServer open_conn empty_database" server_with_two addr_A "31 * Second" 1 7
            "''10.0.0.1:4000''" "client_seen_at 0 1 addr_A"]
    by (simp add: client_seen_at_def NewUDPClient_def)
qed

subsection \<open>Timeout eviction\<close>

lemma filter_not_evicted:
  assumes "distinct (map fst al)"
  shows "filter (\<lambda>(a, c). a \<notin> fst ` set (map (\<lambda>(a, c). (a, f c)) (filter (\<lambda>(a, c). Q c) al))) al
         = filter (\<lambda>(a, c). \<not> Q c) al"
proof (rule filter_cong [OF refl])
  fix e assume e: "e \<in> set al"
  obtain a c where ac: "e = (a, c)" by (cases e)
  have "a \<in> fst ` set (map (\<lambda>(a, c). (a, f c)) (filter (\<lambda>(a, c). Q c) al)) \<longleftrightarrow> (\<exists>c'. (a, c') \<in> set al \<and> Q c')"
    by force
  also have "\<dots> \<longleftrightarrow> Q c"
    using assms e ac by (metis eq_key_imp_eq_value)
  finally show "(case e of (a, c) \<Rightarrow> a \<notin> fst ` set (map (\<lambda>(a, c). (a, f c)) (filter (\<lambda>(a, c). Q c) al)))
                = (case e of (a, c) \<Rightarrow> \<not> Q c)"
    by (simp add: ac)
qed

text \<open>
  Claim C10. One firing of the timeout sweep writes no datagram (no \<open>PlayerLeave\<close>),
  issues no statement to the store (no \<open>EndSession\<close>, no "leave" event) and leaves the
  mutex as it found it. When it gets the mutex, the client table afterwards is the old one
  without the clients last seen more than 30 s ago, every remaining entry unchanged, and
  the reverse index is the old one without the ids of the evicted clients; when it does
  not get the mutex it changes nothing.
\<close>

theorem eviction_changes_only_the_indices:
  assumes "distinct (map fst (UDPGameServer.clients ugs))"
  shows "conn (state_of (startCleanupTask_tick now ugs)) = conn ugs
     \<and> UDPGameServer.database (state_of (startCleanupTask_tick now ugs)) = UDPGameServer.database ugs
     \<and> UDPGameServer.mu (state_of (startCleanupTask_tick now ugs)) = UDPGameServer.mu ugs
     \<and> (Lock (UDPGameServer.mu ugs) = None \<longrightarrow> startCleanupTask_tick now ugs = Blocked ugs)
     \<and> (Lock (UDPGameServer.mu ugs) \<noteq> None \<longrightarrow>
          startCleanupTask_tick now ugs = Returned (state_of (startCleanupTask_tick now ugs))
          \<and> UDPGameServer.clients (state_of (startCleanupTask_tick now ugs))
              = filter (\<lambda>(a, c). \<not> IsTimeout now c) (UDPGameServer.clients ugs)
          \<and> clientByID (state_of (startCleanupTask_tick now ugs))
              = filter (\<lambda>(i, a). i \<notin> set (map (\<lambda>(a, c). UDPClient.ID c)
                                  (filter (\<lambda>(a, c). IsTimeout now c) (UDPGameServer.clients ugs))))
                  (clientByID ugs))"
proof (cases "Lock (UDPGameServer.mu ugs)")
  case None
  then show ?thesis by (simp add: startCleanupTask_tick_def)
next
  case (Some m)
  define es where "es = map (\<lambda>(a, c). (a, UDPClient.ID c))
                          (filter (\<lambda>(a, c). IsTimeout now c) (UDPGameServer.clients ugs))"
  have mu: "Unlock m = UDPGameServer.mu ugs"
    using Some by (auto simp: Lock_def Unlock_def split: if_splits)
  have tick: "startCleanupTask_tick now ugs
              = Returned ((fold remove_client es ugs)\<lparr>UDPGameServer.mu := UDPGameServer.mu ugs\<rparr>)"
    unfolding es_def by (simp add: startCleanupTask_tick_def Some Let_def zip_timed_out mu)
  have cl: "filter (\<lambda>(a, c). a \<notin> fst ` set es) (UDPGameServer.clients ugs)
            = filter (\<lambda>(a, c). \<not> IsTimeout now c) (UDPGameServer.clients ugs)"
    unfolding es_def using assms by (rule filter_not_evicted)
  have ix: "snd ` set es = set (map (\<lambda>(a, c). UDPClient.ID c)
                                 (filter (\<lambda>(a, c). IsTimeout now c) (UDPGameServer.clients ugs)))"
    unfolding es_def by force
  have "UDPGameServer.clients (state_of (startCleanupTask_tick now ugs))
          = filter (\<lambda>(a, c). \<not> IsTimeout now c) (UDPGameServer.clients ugs)"
    by (simp add: tick fold_remove_client_clients cl)
  moreover have "clientByID (state_of (startCleanupTask_tick now ugs))
          = filter (\<lambda>(i, a). i \<notin> set (map (\<lambda>(a, c). UDPClient.ID c)
                                  (filter (\<lambda>(a, c). IsTimeout now c) (UDPGameServer.clients ugs))))
                  (clientByID ugs)"
    unfolding ix [symmetric] by (simp add: tick fold_remove_client_index)
  ultimately show ?thesis
    by (simp add: Some) (simp add: tick fold_remove_client_fields)
qed

text \<open>Witness for C10: the sweep at 31 s evicts the client last seen at 0 and keeps the other.\<close>

theorem eviction_changes_only_the_indices_witness:
  "distinct (map fst (UDPGameServer.clients server_with_two))
   \<and> Lock (UDPGameServer.mu server_with_two) \<noteq> None
   \<and> conn (state_of (startCleanupTask_tick (31 * Second) server_with_two)) = conn server_with_two
   \<and> UDPGameServer.database (state_of (startCleanupTask_tick (31 * Second) server_with_two))
       = UDPGameServer.database server_with_two
   \<and> UDPGameServer.clients (state_of (startCleanupTask_tick (31 * Second) server_with_two))
       = [(''10.0.0.2:4000'', client_seen_at (20 * Second) 2 addr_B)]
   \<and> clientByID (state_of (startCleanupTask_tick (31 * Second) server_with_two))
       = [(2, ''10.0.0.2:4000'')]"
proof -
  have d: "distinct (map fst (UDPGameServer.clients server_with_two))"
    by (simp add: server_with_two_def)
  have l: "Lock (UDPGameServer.mu server_with_two) \<noteq> None"
    by (simp add: server_with_two_def NewUDPGameServer_def NewRWMutex_def Lock_def)
  have t: "filter (\<lambda>(a, c). \<not> IsTimeout (31 * Second) c) (UDPGameServer.clients server_with_two)
           = [(''10.0.0.2:4000'', client_seen_at (20 * Second) 2 addr_B)]"
       "filter (\<lambda>(a, c). IsTimeout (31 * Second) c) (UDPGameServer.clients server_with_two)
           = [(''10.0.0.1:4000'', client_seen_at 0 1 addr_A)]"
    by (simp_all add: server_with_two_def IsTimeout_def client_seen_at_def NewUDPClient_def Since_def Second_def)
  have i: "clientByID server_with_two = [(1, ''10.0.0.1:4000''), (2, ''10.0.0.2:4000'')]"
    by (simp add: server_with_two_def)
  have "UDPClient.ID (client_seen_at 0 1 addr_A) = 1"
    by (simp add: client_seen_at_def NewUDPClient_def)
  then show ?thesis
    using d l eviction_changes_only_the_indices [OF d, of "31 * Second"]
    by (simp add: t i)
qed

subsection \<open>Datagram moves\<close>


lemma faults_statements [simp]:
  "faults (update_position now pid x y d) = faults d"
  "faults (update_score now pid s d) = faults d"
  "faults (insert_event now pid sid ty ev d) = faults d"
  "faults (insert_chat now pid sid msg d) = faults d"
  "faults (upsert_player now p d) = faults d"
  "faults (insert_session now pid proto ip d) = faults d"
  "faults (end_session now i d) = faults d"
  by (simp_all add: update_position_def update_score_def insert_event_def insert_chat_def
        upsert_player_def insert_session_def end_session_def Let_def)



lemma RUnlock_RLock: "RLock m = Some m' \<Longrightarrow> RUnlock m' = m"
  by (auto simp: RLock_def RUnlock_def split: if_splits)


lemma lookup_client_free:
  "\<not> writer (UDPGameServer.mu ugs) \<Longrightarrow>
   lookup_client addr ugs = Some (map_of (UDPGameServer.clients ugs) (addr_String addr), ugs)"
  by (simp add: lookup_client_def RLock_def RUnlock_def)





lemma stored_positions_insert_event [simp]:
  "stored_positions pid (insert_event now p sid ty ev d) = stored_positions pid d"
  by (simp add: stored_positions_def insert_event_def)

lemma move_events_statements [simp]:
  "move_events (update_position now pid x y d) = move_events d"
  "move_events (insert_event now pid sid ty ev d) = move_events d @ [(ty, ev)]"
  by (simp_all add: move_events_def update_position_def insert_event_def)





subsection \<open>Actions\<close>

lemma Unlock_Lock: "Lock m = Some m' \<Longrightarrow> Unlock m' = m"
  by (auto simp: Lock_def Unlock_def split: if_splits)

lemma handlePlayerAction_clients:
  assumes "map_of (GameState.clients gs) clientID = Some client"
  shows "GameState.clients (handlePlayerAction now clientID action data sid gs) =
     (if action = ''pickup''
      then AList.update clientID (AddScore 10 client) (GameState.clients gs)
      else GameState.clients gs)"
  using assms by (simp add: handlePlayerAction_def Let_def split_beta)

lemma handlePlayerAction_mu [simp]:
  "GameState.mu (handlePlayerAction now clientID action data sid gs) = GameState.mu gs"
  by (simp add: handlePlayerAction_def Let_def split_beta split: option.splits)

lemma HandleMessage_action:
  assumes "Lock (GameState.mu gs) \<noteq> None"
    and "map_of (GameState.clients gs) clientID = Some client"
    and "Type message = ''PlayerAction''"
    and "payload_player_id Parse message = Some clientID"
    and "payload_action message = Some action"
  shows "\<exists>gs'. HandleMessage Parse f32 now clientID message sid gs = Returned gs'
     \<and> GameState.clients gs' =
         (if action = ''pickup''
          then AList.update clientID (AddScore 10 client) (GameState.clients gs)
          else GameState.clients gs)"
proof -
  from assms(1) obtain m where m: "Lock (GameState.mu gs) = Some m" by blast
  from assms(4) obtain data s where d: "as_object (Data message) = Some data"
      "as_string (map_of data ''player_id'') = Some s" "Parse s = Some clientID"
    by (auto simp: payload_player_id_def split: option.splits)
  from assms(5) d(1) have a: "as_string (map_of data ''action'') = Some action"
    by (simp add: payload_action_def)
  have c: "map_of (GameState.clients (gs\<lparr>GameState.mu := m\<rparr>)) clientID = Some client"
    using assms(2) by simp
  show ?thesis
    using assms(2,3) d a handlePlayerAction_clients [OF c]
    by (simp add: HandleMessage_def m HandleMessage_PlayerAction_def and_then_def)
qed

lemma UDP_handlePlayerAction_clients:
  assumes "\<not> writer (UDPGameServer.mu ugs)"
    and "map_of (UDPGameServer.clients ugs) (addr_String addr) = Some c" and "UDPClient.ID c = pid"
  shows "\<exists>s'. UDP_handlePlayerAction now addr pid action data q ugs = Returned s'
     \<and> UDPGameServer.clients s' =
         (if action = ''pickup''
          then AList.update (addr_String addr) (UDPClient_AddScore 10 c) (UDPGameServer.clients ugs)
          else UDPGameServer.clients ugs)"
  using assms
  by (simp add: UDP_handlePlayerAction_def lookup_client_free Let_def split_beta store_client_def)

text \<open>
  Claim C3. A \<open>PlayerAction\<close> that passes the identity check is handled to the end when the
  mutex is free. With the action "pickup" the client's entry afterwards is the old one
  with the score replaced by the old score plus 10, in 32-bit arithmetic (the sum wraps
  at \<open>2^32\<close>): id, name, position and health are the old ones. With any other action,
  "attack" or unknown, the client table is the old one. This holds for the stream
  transport and for the datagram transport.
\<close>

theorem pickup_adds_ten_other_actions_nothing:
  "(Lock (GameState.mu gs) \<noteq> None \<and> map_of (GameState.clients gs) clientID = Some client
      \<and> Type message = ''PlayerAction'' \<and> payload_player_id Parse message = Some clientID
      \<and> payload_action message = Some action \<longrightarrow>
    (\<exists>gs'. HandleMessage Parse f32 now clientID message sid gs = Returned gs'
       \<and> GameState.clients gs' =
           (if action = ''pickup''
            then AList.update clientID
                   (client\<lparr>Client.Player := (Client.Player client)
                              \<lparr>Player.Score := Player.Score (Client.Player client) + 10\<rparr>\<rparr>)
                   (GameState.clients gs)
            else GameState.clients gs)))
   \<and> (\<not> writer (UDPGameServer.mu ugs) \<and> map_of (UDPGameServer.clients ugs) (addr_String addr) = Some c
      \<and> UDPClient.ID c = pid \<longrightarrow>
    (\<exists>s'. UDP_handlePlayerAction now addr pid action data q ugs = Returned s'
       \<and> UDPGameServer.clients s' =
           (if action = ''pickup''
            then AList.update (addr_String addr)
                   (c\<lparr>UDPClient.Player := (UDPClient.Player c)
                              \<lparr>Player.Score := Player.Score (UDPClient.Player c) + 10\<rparr>\<rparr>)
                   (UDPGameServer.clients ugs)
            else UDPGameServer.clients ugs)))
   \<and> unat (Player.Score p + 10) = (unat (Player.Score p) + 10) mod 2 ^ 32"
proof (intro conjI impI)
  show "unat (Player.Score p + 10) = (unat (Player.Score p) + 10) mod 2 ^ 32"
    by (simp add: unat_word_ariths)
qed (use HandleMessage_action [where action = action] UDP_handlePlayerAction_clients [where action = action]
     in \<open>auto simp: AddScore_def UDPClient_AddScore_def\<close>)

text \<open>
  Witness for C3: a pickup by the example client on either transport leaves it with
  score 10, and a score of \<open>2^32 - 1\<close> becomes 9.
\<close>

theorem pickup_adds_ten_other_actions_nothing_witness:
  "Lock (GameState.mu game_with_one) \<noteq> None
   \<and> map_of (GameState.clients game_with_one) 1 = Some (NewClient 1 ''127.0.0.1:0'' ''Player_00000000'')
   \<and> Type (action_message ''00000000-0000-0000-0000-000000000001'' ''pickup'') = ''PlayerAction''
   \<and> payload_player_id parse_one_two (action_message ''00000000-0000-0000-0000-000000000001'' ''pickup'') = Some 1
   \<and> payload_action (action_message ''00000000-0000-0000-0000-000000000001'' ''pickup'') = Some ''pickup''
   \<and> (\<exists>gs'. HandleMessage parse_one_two (\<lambda>r. r) 0 1
                (action_message ''00000000-0000-0000-0000-000000000001'' ''pickup'') None game_with_one
              = Returned gs'
          \<and> map_option (\<lambda>c. Player.Score (Client.Player c)) (map_of (GameState.clients gs') 1) = Some 10)
   \<and> \<not> writer (UDPGameServer.mu server_with_two)
   \<and> map_of (UDPGameServer.clients server_with_two) (addr_String addr_A) = Some (client_seen_at 0 1 addr_A)
   \<and> UDPClient.ID (client_seen_at 0 1 addr_A) = 1
   \<and> (\<exists>s'. UDP_handlePlayerAction 0 addr_A 1 ''pickup'' JNull 3 server_with_two = Returned s'
          \<and> map_option (\<lambda>c. Player.Score (UDPClient.Player c))
               (map_of (UDPGameServer.clients s') (addr_String addr_A)) = Some 10)
   \<and> unat (Player.Score ((NewPlayer 1 ''n'')\<lparr>Player.Score := 4294967295\<rparr>) + 10) = 9"
proof -
  let ?msg = "action_message ''00000000-0000-0000-0000-000000000001'' ''pickup''"
  have h1: "Lock (GameState.mu game_with_one) \<noteq> None"
      "map_of (GameState.clients game_with_one) 1 = Some (NewClient 1 ''127.0.0.1:0'' ''Player_00000000'')"
      "Type ?msg = ''PlayerAction''"
      "payload_player_id parse_one_two ?msg = Some 1"
      "payload_action ?msg = Some ''pickup''"
    by (simp_all add: game_with_one_def NewGameState_def NewRWMutex_def Lock_def action_message_def
          payload_player_id_def payload_action_def parse_one_two_def)
  have h2: "\<not> writer (UDPGameServer.mu server_with_two)"
      "map_of (UDPGameServer.clients server_with_two) (addr_String addr_A) = Some (client_seen_at 0 1 addr_A)"
      "UDPClient.ID (client_seen_at 0 1 addr_A) = 1"
    by (simp_all add: server_with_two_def NewUDPGameServer_def NewRWMutex_def addr_A_def
          client_seen_at_def NewUDPClient_def)
  note inst = pickup_adds_ten_other_actions_nothing
    [of game_with_one 1 "NewClient 1 ''127.0.0.1:0'' ''Player_00000000''" "?msg" parse_one_two "''pickup''"
        "\<lambda>r. r" 0 None server_with_two addr_A "client_seen_at 0 1 addr_A" 1 JNull 3
        "(NewPlayer 1 ''n'')\<lparr>Player.Score := 4294967295\<rparr>"]
  show ?thesis
    using h1 h2 inst
    by (auto simp: AList.update_conv' NewClient_def NewPlayer_def client_seen_at_def NewUDPClient_def)
qed

subsection \<open>Identity mismatch\<close>

lemma HandleMessage_mismatch:
  assumes "payload_player_id Parse message \<noteq> Some clientID"
  shows "state_of (HandleMessage Parse f32 now clientID message sid gs) = gs"
proof (cases "Lock (GameState.mu gs)")
  case None
  then show ?thesis by (simp add: HandleMessage_def)
next
  case (Some m)
  have "HandleMessage_PlayerMove Parse f32 now clientID client message sid s = Returned s"
       "HandleMessage_PlayerAction Parse now clientID message sid s = Returned s"
       "HandleMessage_Chat Parse now clientID message sid s = Returned s" for client s
    using assms
    by (auto simp: HandleMessage_PlayerMove_def HandleMessage_PlayerAction_def HandleMessage_Chat_def
          payload_player_id_def split: option.splits)
  then show ?thesis
    by (simp add: HandleMessage_def Some and_then_def Let_def Unlock_Lock [OF Some] split: option.splits)
qed

lemma lookup_client_state:
  "lookup_client addr ugs = Some (found, s) \<Longrightarrow> s = ugs"
  by (auto simp: lookup_client_def RLock_def RUnlock_def split: if_splits)

lemma datagram_mismatch:
  assumes "map_option UDPClient.ID (map_of (UDPGameServer.clients ugs) (addr_String addr)) \<noteq> Some pid"
  shows "state_of (handlePlayerMove now addr pid x y q ugs) = ugs"
    and "state_of (UDP_handlePlayerAction now addr pid action data q ugs) = ugs"
    and "state_of (handleChat now addr pid msg q ugs) = ugs"
proof -
  have found: "lookup_client addr ugs = None \<or> lookup_client addr ugs = Some (None, ugs)
     \<or> (\<exists>c. lookup_client addr ugs = Some (Some c, ugs) \<and> UDPClient.ID c \<noteq> pid)"
  proof (cases "RLock (UDPGameServer.mu ugs)")
    case None
    then show ?thesis by (simp add: lookup_client_def)
  next
    case (Some m)
    have m: "ugs\<lparr>UDPGameServer.mu := RUnlock m\<rparr> = ugs"
      using Some by (auto simp: RLock_def RUnlock_def split: if_splits)
    show ?thesis
      using assms by (cases "map_of (UDPGameServer.clients ugs) (addr_String addr)")
        (simp_all add: lookup_client_def Some m)
  qed
  show "state_of (handlePlayerMove now addr pid x y q ugs) = ugs"
    using found by (auto simp: handlePlayerMove_def)
  show "state_of (UDP_handlePlayerAction now addr pid action data q ugs) = ugs"
    using found by (auto simp: UDP_handlePlayerAction_def)
  show "state_of (handleChat now addr pid msg q ugs) = ugs"
    using found by (auto simp: handleChat_def)
qed

text \<open>
  Claim C5. A stream message whose payload does not carry the id of the connection, and a
  datagram \<open>PlayerMove\<close>, \<open>PlayerAction\<close> or \<open>Chat\<close> whose id is not the id of the client
  stored under the sender's address, leave the whole server state as it was: roster and
  client table, queues and pending packets, the record of sent messages and written
  datagrams, and the store.
\<close>

theorem mismatched_identity_is_dropped:
  "(payload_player_id Parse message \<noteq> Some clientID \<longrightarrow>
      state_of (HandleMessage Parse f32 now clientID message sid gs) = gs)
   \<and> (map_option UDPClient.ID (map_of (UDPGameServer.clients ugs) (addr_String addr)) \<noteq> Some pid \<longrightarrow>
        state_of (handlePlayerMove now addr pid x y q ugs) = ugs
      \<and> state_of (UDP_handlePlayerAction now addr pid action data q ugs) = ugs
      \<and> state_of (handleChat now addr pid msg q ugs) = ugs)"
  by (intro conjI impI) (simp_all add: HandleMessage_mismatch datagram_mismatch)

text \<open>Witness for C5: messages carrying id 2 on the connection and the address of client 1.\<close>

theorem mismatched_identity_is_dropped_witness:
  "payload_player_id parse_one_two (action_message ''00000000-0000-0000-0000-000000000002'' ''pickup'') \<noteq> Some 1
   \<and> state_of (HandleMessage parse_one_two (\<lambda>r. r) 0 1
        (action_message ''00000000-0000-0000-0000-000000000002'' ''pickup'') None game_with_one) = game_with_one
   \<and> map_option UDPClient.ID (map_of (UDPGameServer.clients server_with_two) (addr_String addr_A)) \<noteq> Some 2
   \<and> state_of (handlePlayerMove 0 addr_A 2 5 5 10 server_with_two) = server_with_two
   \<and> state_of (UDP_handlePlayerAction 0 addr_A 2 ''pickup'' JNull 10 server_with_two) = server_with_two
   \<and> state_of (handleChat 0 addr_A 2 ''hi'' 10 server_with_two) = server_with_two"
proof -
  have h1: "payload_player_id parse_one_two (action_message ''00000000-0000-0000-0000-000000000002'' ''pickup'') \<noteq> Some 1"
    by (simp add: payload_player_id_def action_message_def parse_one_two_def)
  have h2: "map_option UDPClient.ID (map_of (UDPGameServer.clients server_with_two) (addr_String addr_A)) \<noteq> Some 2"
    by (simp add: server_with_two_def addr_A_def client_seen_at_def NewUDPClient_def)
  show ?thesis
    using h1 h2
      mismatched_identity_is_dropped
        [of parse_one_two "action_message ''00000000-0000-0000-0000-000000000002'' ''pickup''" 1
            "\<lambda>r. r" 0 None game_with_one server_with_two addr_A 2 5 5 10 "''pickup''" JNull "''hi''"]
    by blast
qed

subsection \<open>Ending a session\<close>

lemma Exec_tables:
  assumes "\<And>d. game_sessions (stmt d) = f (game_sessions d)"
  shows "game_sessions (snd (Exec stmt d)) = (if accepts_next d then f (game_sessions d) else game_sessions d)"
    and "fst (Exec stmt d) = None \<longleftrightarrow> accepts_next d"
  using assms by (auto simp: Exec_def accepts_next_def split: list.splits)

lemma end_session_rows:
  "game_sessions (end_session now i d) =
     map (\<lambda>r. if GameSession.ID r = i \<and> SessionEnd r = None then r\<lparr>SessionEnd := Some (Unix now)\<rparr> else r)
       (game_sessions d)"
  by (simp add: end_session_def)

lemma end_session_twice:
  "map (\<lambda>r. if GameSession.ID r = i \<and> SessionEnd r = None then r\<lparr>SessionEnd := Some t2\<rparr> else r)
     (map (\<lambda>r. if GameSession.ID r = i \<and> SessionEnd r = None then r\<lparr>SessionEnd := Some t1\<rparr> else r) rows)
   = map (\<lambda>r. if GameSession.ID r = i \<and> SessionEnd r = None then r\<lparr>SessionEnd := Some t1\<rparr> else r) rows"
  by (induction rows) auto

text \<open>
  Claim C8. A call of \<open>EndSession\<close> that the store accepts returns no error and sets the end
  timestamp of the rows with that session id whose end is still null, and of no other
  row. After it, a second call for the same id changes no row of the sessions table,
  whenever it is made; and it returns no error when the store accepts it.
\<close>

theorem EndSession_idempotent:
  assumes "accepts_next d"
  shows "fst (EndSession now1 sessionID d) = None
     \<and> game_sessions (snd (EndSession now1 sessionID d))
         = map (\<lambda>r. if GameSession.ID r = sessionID \<and> SessionEnd r = None
                     then r\<lparr>SessionEnd := Some (Unix now1)\<rparr> else r) (game_sessions d)
     \<and> game_sessions (snd (EndSession now2 sessionID (snd (EndSession now1 sessionID d))))
         = game_sessions (snd (EndSession now1 sessionID d))
     \<and> (accepts_next (snd (EndSession now1 sessionID d)) \<longrightarrow>
          fst (EndSession now2 sessionID (snd (EndSession now1 sessionID d))) = None)"
  using assms
  by (simp add: EndSession_def Exec_tables [of "end_session _ _", OF end_session_rows] end_session_twice)

text \<open>
  Witness for C8: a session ended at 5 s keeps that end when it is ended again at 9 s.
\<close>

theorem EndSession_idempotent_witness:
  "accepts_next database_with_session
   \<and> map SessionEnd (game_sessions database_with_session) = [None]
   \<and> map SessionEnd (game_sessions (snd (EndSession (5 * Second) 1 database_with_session))) = [Some 5]
   \<and> accepts_next (snd (EndSession (5 * Second) 1 database_with_session))
   \<and> fst (EndSession (9 * Second) 1 (snd (EndSession (5 * Second) 1 database_with_session))) = None
   \<and> map SessionEnd (game_sessions (snd (EndSession (9 * Second) 1
                        (snd (EndSession (5 * Second) 1 database_with_session))))) = [Some 5]"
proof -
  have a: "accepts_next database_with_session"
    by (simp add: accepts_next_def database_with_session_def insert_session_def empty_database_def)
  have rows: "map SessionEnd (game_sessions database_with_session) = [None]"
    by (simp add: database_with_session_def insert_session_def empty_database_def next_rowid_def)
  have a2: "accepts_next (snd (EndSession (5 * Second) 1 database_with_session))"
    by (simp add: EndSession_def Exec_def accepts_next_def database_with_session_def insert_session_def
          empty_database_def end_session_def)
  have e: "map SessionEnd (map (\<lambda>r. if GameSession.ID r = 1 \<and> SessionEnd r = None
                     then r\<lparr>SessionEnd := Some (Unix (5 * Second))\<rparr> else r) (game_sessions database_with_session))
           = [Some 5]"
    by (simp add: database_with_session_def insert_session_def empty_database_def next_rowid_def
          Unix_def Second_def)
  show ?thesis
    using a a2 rows e EndSession_idempotent [OF a, of "5 * Second" 1 "9 * Second"]
    by simp
qed

subsection \<open>Registration of a stream client\<close>







lemma distinct_keys_update:
  "distinct (map fst al) \<Longrightarrow> distinct (map fst (AList.update k v al))"
  by (simp add: AList.distinct_update)








subsection \<open>Round trip through the datagram codec\<close>






subsection \<open>Health\<close>

lemma roster_healthy_fields [simp]:
  "roster_healthy (gs\<lparr>GameState.mu := m\<rparr>) = roster_healthy gs"
  "roster_healthy (gs\<lparr>GameState.database := d\<rparr>) = roster_healthy gs"
  "roster_healthy (gs\<lparr>sent := s\<rparr>) = roster_healthy gs"
  by (simp_all add: roster_healthy_def)














lemma table_healthy_fields [simp]:
  "table_healthy (ugs\<lparr>UDPGameServer.mu := m\<rparr>) = table_healthy ugs"
  "table_healthy (ugs\<lparr>conn := c\<rparr>) = table_healthy ugs"
  "table_healthy (ugs\<lparr>UDPGameServer.database := d\<rparr>) = table_healthy ugs"
  "table_healthy (ugs\<lparr>clientByID := x\<rparr>) = table_healthy ugs"
  "table_healthy (sendAck now addr sequence ugs) = table_healthy ugs"
  by (simp_all add: table_healthy_def)

lemma Health_client_operations [simp]:
  "Player.Health (UDPClient.Player (snd (NextSequence uc))) = Player.Health (UDPClient.Player uc)"
  "Player.Health (UDPClient.Player (AddPendingAck now packet uc)) = Player.Health (UDPClient.Player uc)"
  "Player.Health (UDPClient.Player (snd (RemovePendingAck q uc))) = Player.Health (UDPClient.Player uc)"
  "Player.Health (UDPClient.Player (UDPClient_UpdatePosition now x y uc)) = Player.Health (UDPClient.Player uc)"
  "Player.Health (UDPClient.Player (UDPClient_AddScore n uc)) = Player.Health (UDPClient.Player uc)"
  by (simp_all add: NextSequence_def AddPendingAck_def RemovePendingAck_def Let_def
        UDPClient_UpdatePosition_def UDPClient_AddScore_def)

lemma Health_resend_loop [simp]:
  "Player.Health (UDPClient.Player (fst (resend_loop now a seqs uc c))) = Player.Health (UDPClient.Player uc)"
  by (induction seqs arbitrary: uc c) (simp_all add: Let_def split_beta split: option.splits)

lemma broadcastReliable_loop_healthy:
  "list_all (\<lambda>(a, uc). health_in_range (Player.Health (UDPClient.Player uc))) cs \<Longrightarrow>
   list_all (\<lambda>(a, uc). health_in_range (Player.Health (UDPClient.Player uc)))
     (fst (broadcastReliable_loop now m ex cs c))"
  by (induction cs arbitrary: c) (auto simp: Let_def split_beta)

lemma reliability_loop_healthy:
  "list_all (\<lambda>(a, uc). health_in_range (Player.Health (UDPClient.Player uc))) cs \<Longrightarrow>
   list_all (\<lambda>(a, uc). health_in_range (Player.Health (UDPClient.Player uc)))
     (fst (reliability_loop now cs c))"
  by (induction cs arbitrary: c) (auto simp: Let_def split_beta)

lemma table_healthy_store_client:
  "table_healthy ugs \<Longrightarrow> health_in_range (Player.Health (UDPClient.Player client)) \<Longrightarrow>
   table_healthy (store_client addr client ugs)"
  by (simp add: table_healthy_def store_client_def list_all_update)

lemma table_healthy_lookup:
  "table_healthy ugs \<Longrightarrow> map_of (UDPGameServer.clients ugs) a = Some client \<Longrightarrow>
   health_in_range (Player.Health (UDPClient.Player client))"
  using list_all_map_of [of "\<lambda>(a, uc). health_in_range (Player.Health (UDPClient.Player uc))"]
  by (fastforce simp: table_healthy_def)

lemma table_healthy_broadcastReliable:
  "table_healthy ugs \<Longrightarrow> table_healthy (state_of (broadcastReliable now m ex ugs))"
  using broadcastReliable_loop_healthy [of "UDPGameServer.clients ugs" now m ex "conn ugs"]
  by (simp add: broadcastReliable_def table_healthy_def split_beta split: option.splits)

lemma table_healthy_broadcastUnreliable:
  "table_healthy ugs \<Longrightarrow> table_healthy (state_of (broadcastUnreliable now m ex ugs))"
  by (simp add: broadcastUnreliable_def split: option.splits)

lemma table_healthy_sendGameState:
  assumes inv: "table_healthy ugs"
  shows "table_healthy (state_of (UDP_sendGameStateToClient now addr ugs))"
  using inv table_healthy_lookup [OF inv, of "addr_String addr"]
  by (auto simp: UDP_sendGameStateToClient_def Let_def split_beta table_healthy_def
        list_all_update split: option.splits)

lemma table_healthy_admit:
  "table_healthy ugs \<Longrightarrow> table_healthy (admit now addr pid ugs)"
  by (simp add: admit_def Let_def split_beta table_healthy_def list_all_update
        NewUDPClient_def NewPlayer_def health_in_range_def)

lemma table_healthy_touch:
  assumes inv: "table_healthy ugs"
  shows "table_healthy (touch now addr q ugs)"
  using inv table_healthy_lookup [OF inv, of "addr_String addr"]
  by (auto simp: touch_def table_healthy_def list_all_update split: option.splits)

lemma table_healthy_handleHeartbeat:
  assumes inv: "table_healthy ugs"
  shows "table_healthy (state_of (handleHeartbeat now addr pid q ugs))"
proof (cases "Lock (UDPGameServer.mu ugs)")
  case None
  then show ?thesis using inv by (simp add: handleHeartbeat_def)
next
  case (Some m)
  have m: "table_healthy (ugs\<lparr>UDPGameServer.mu := m\<rparr>)" using inv by simp
  note th_and_then = state_of_and_then [where P = table_healthy]
  show ?thesis
    unfolding handleHeartbeat_def Some option.case
    by (rule th_and_then)
       (auto intro!: th_and_then table_healthy_broadcastReliable table_healthy_sendGameState
          table_healthy_admit table_healthy_touch m)
qed

lemma table_healthy_handlers:
  assumes inv: "table_healthy ugs"
  shows "table_healthy (state_of (handleAck addr q ugs))"
    and "table_healthy (state_of (handlePlayerMove now addr pid x y q ugs))"
    and "table_healthy (state_of (UDP_handlePlayerAction now addr pid action data q ugs))"
    and "table_healthy (state_of (handleChat now addr pid msg q ugs))"
proof -
  have stored: "table_healthy (store_client addr client' (ugs\<lparr>UDPGameServer.mu := m\<rparr>))"
    if "map_of (UDPGameServer.clients ugs) (addr_String addr) = Some client"
      and "Player.Health (UDPClient.Player client') = Player.Health (UDPClient.Player client)"
    for client client' m
    using inv table_healthy_lookup [OF inv that(1)] that(2)
    by (simp add: table_healthy_store_client)
  show "table_healthy (state_of (handleAck addr q ugs))"
    by (cases rule: lookup_client_cases [of addr ugs])
       (auto simp: handleAck_def inv stored split: option.splits)
  show "table_healthy (state_of (handlePlayerMove now addr pid x y q ugs))"
    by (cases rule: lookup_client_cases [of addr ugs])
       (auto simp: handlePlayerMove_def Let_def split_beta inv stored
          intro!: table_healthy_broadcastUnreliable split: option.splits)
  show "table_healthy (state_of (UDP_handlePlayerAction now addr pid action data q ugs))"
    by (cases rule: lookup_client_cases [of addr ugs])
       (auto simp: UDP_handlePlayerAction_def Let_def split_beta inv stored split: option.splits)
  show "table_healthy (state_of (handleChat now addr pid msg q ugs))"
    by (cases rule: lookup_client_cases [of addr ugs])
       (auto simp: handleChat_def Let_def split_beta inv
          intro!: table_healthy_broadcastReliable split: option.splits)
qed

lemma table_healthy_fold_remove:
  "table_healthy ugs \<Longrightarrow> table_healthy (fold remove_client es ugs)"
proof (induction es arbitrary: ugs)
  case Nil
  then show ?case by simp
next
  case (Cons e es)
  have "table_healthy (remove_client e ugs)"
    using Cons.prems by (simp add: remove_client_def table_healthy_def list_all_delete)
  then show ?case by (simp add: Cons.IH)
qed

lemma table_healthy_ticks:
  assumes inv: "table_healthy ugs"
  shows "table_healthy (state_of (startHeartbeatTask_tick now ugs))"
    and "table_healthy (state_of (startCleanupTask_tick now ugs))"
    and "table_healthy (state_of (startReliabilityTask_tick now ugs))"
proof -
  show "table_healthy (state_of (startHeartbeatTask_tick now ugs))"
    using inv by (simp add: startHeartbeatTask_tick_def split: option.splits)
  show "table_healthy (state_of (startCleanupTask_tick now ugs))"
    using inv by (simp add: startCleanupTask_tick_def Let_def table_healthy_fold_remove split: option.splits)
  have "list_all (\<lambda>(a, uc). health_in_range (Player.Health (UDPClient.Player uc)))
          (fst (reliability_loop now (UDPGameServer.clients ugs) (conn ugs)))"
    using inv unfolding table_healthy_def by (rule reliability_loop_healthy)
  then show "table_healthy (state_of (startReliabilityTask_tick now ugs))"
    using inv by (simp add: startReliabilityTask_tick_def split_beta table_healthy_def split: option.splits)
qed

lemma table_healthy_step:
  "table_healthy ugs \<Longrightarrow> table_healthy (state_of (step now e ugs))"
  by (cases e) (simp_all add: table_healthy_handleHeartbeat table_healthy_handlers table_healthy_ticks)

lemma reachable_table_healthy: "reachable ugs \<Longrightarrow> table_healthy ugs"
proof (induction rule: reachable.induct)
  case (fresh c d)
  show ?case by (simp add: NewUDPGameServer_def table_healthy_def)
next
  case (after ugs now e)
  then show ?case by (simp add: table_healthy_step)
qed




end
